theory Spec2Isabelle
  imports Main "HOL-Library.Sublist" "HOL-Library.AList" "HOL-Library.Extended_Nat"
begin

section \<open>JavaScript values\<close>

text \<open>
  The values that cross the boundary between the query layer and the engine. A JavaScript
  string is kept as the byte sequence of its UTF-8 encoding; every character the code
  inspects is ASCII, and an ASCII byte never occurs inside the encoding of another
  character. Numbers are carried as integers: the code only passes them on or compares
  them with \<open>0\<close>. \<open>Inherited\<close> stands for a member a lookup finds on
  \<open>Object.prototype\<close>.
\<close>

datatype jsval =
    Undefined
  | Null
  | Bool bool
  | Num int
  | BigInt int
  | Str string
  | Buffer string
  | Inherited string

type_synonym row = "(string \<times> jsval) list"

text \<open>\<open>BigInt.prototype.toString()\<close>: the decimal digits, with a minus sign below zero.\<close>

definition digit_char :: "nat \<Rightarrow> char" where
  "digit_char d = ''0123456789'' ! d"

function digits :: "nat \<Rightarrow> string" where
  "digits n = (if n < 10 then [digit_char n] else digits (n div 10) @ [digit_char (n mod 10)])"
  by pat_completeness auto
termination
  by (relation "measure id") auto

declare digits.simps [simp del]

definition bigint_toString :: "int \<Rightarrow> string" where
  "bigint_toString n = (if n < 0 then CHR ''-'' # digits (nat (- n)) else digits (nat n))"

text \<open>Reading a decimal string back, to state that the conversion loses nothing.\<close>

definition digit_val :: "char \<Rightarrow> nat" where
  "digit_val c = of_char c - 48"

definition digits_value :: "string \<Rightarrow> nat" where
  "digits_value s = foldl (\<lambda>acc c. 10 * acc + digit_val c) 0 s"

definition parse_bigint :: "string \<Rightarrow> int" where
  "parse_bigint s =
     (case s of
        [] \<Rightarrow> 0
      | c # cs \<Rightarrow> if c = CHR ''-'' then - int (digits_value cs) else int (digits_value s))"

text \<open>\<open>stringifyIfBigint\<close> (query.js, lines 21-27).\<close>

fun stringifyIfBigint :: "jsval \<Rightarrow> jsval" where
  "stringifyIfBigint (BigInt n) = Str (bigint_toString n)"
| "stringifyIfBigint v = v"

section \<open>Strings\<close>

text \<open>\<open>String.prototype.startsWith\<close> is \<^const>\<open>prefix\<close> with the arguments swapped.\<close>

definition startsWith :: "string \<Rightarrow> string \<Rightarrow> bool" where
  "startsWith s p = prefix p s"

text \<open>\<open>String.prototype.includes\<close>.\<close>

fun str_includes :: "string \<Rightarrow> string \<Rightarrow> bool" where
  "str_includes [] n = (n = [])"
| "str_includes (c # cs) n = (prefix n (c # cs) \<or> str_includes cs n)"

text \<open>
  \<open>String.prototype.toLowerCase\<close> on the ASCII letters. Outside ASCII the only characters
  whose lower case is an ASCII letter give \<open>i\<close> and \<open>k\<close>, and the one text searched for
  in a lower-cased string has neither.
\<close>

definition lower_char :: "char \<Rightarrow> char" where
  "lower_char c =
     (case map_of (zip ''ABCDEFGHIJKLMNOPQRSTUVWXYZ'' ''abcdefghijklmnopqrstuvwxyz'') c of
        Some d \<Rightarrow> d
      | None \<Rightarrow> c)"

definition toLowerCase :: "string \<Rightarrow> string" where
  "toLowerCase s = map lower_char s"

text \<open>
  \<open>String.prototype.split\<close> with a non-empty separator: the pieces between the
  occurrences of the separator, found left to right; a string without the separator is
  one piece.
\<close>

function split_acc :: "string \<Rightarrow> string \<Rightarrow> string \<Rightarrow> string list" where
  "split_acc sep acc [] = [rev acc]"
| "split_acc sep acc (c # cs) =
     (if sep \<noteq> [] \<and> prefix sep (c # cs)
      then rev acc # split_acc sep [] (drop (length sep) (c # cs))
      else split_acc sep (c # acc) cs)"
  by pat_completeness auto
termination
  by (relation "measure (\<lambda>(sep, acc, s). length s)") (auto simp: neq_Nil_conv)

definition str_split :: "string \<Rightarrow> string \<Rightarrow> string list" where
  "str_split sep s = split_acc sep [] s"

text \<open>\<open>String.prototype.replaceAll(c, '')\<close> for a one-character pattern.\<close>

definition removeAll_char :: "char \<Rightarrow> string \<Rightarrow> string" where
  "removeAll_char c s = filter (\<lambda>d. d \<noteq> c) s"

subsection \<open>The regular expressions of the query layer\<close>

text \<open>
  \<open>\w\<close> is \<open>[A-Za-z0-9_]\<close>. The dot matches every character but the line terminators
  \<open>\n\<close>, \<open>\r\<close>, U+2028 and U+2029; the last two are three bytes each in UTF-8.
\<close>

definition isWordChar :: "char \<Rightarrow> bool" where
  "isWordChar c \<longleftrightarrow>
     c \<in> set (''abcdefghijklmnopqrstuvwxyz'' @ ''ABCDEFGHIJKLMNOPQRSTUVWXYZ'' @
              ''0123456789'' @ ''_'')"

definition at_line_terminator :: "string \<Rightarrow> bool" where
  "at_line_terminator s \<longleftrightarrow>
     prefix [CHR 0x0A] s \<or> prefix [CHR 0x0D] s \<or>
     prefix [CHR 0xE2, CHR 0x80, CHR 0xA8] s \<or> prefix [CHR 0xE2, CHR 0x80, CHR 0xA9] s"

text \<open>
  \<open>/\$(\w+)/g\<close> run with \<open>exec\<close> until it fails: the names after each \<open>$\<close> that is
  followed by a word character, each name the longest run of word characters, the
  search resuming after the name.
\<close>

function paramNames :: "string \<Rightarrow> string list" where
  "paramNames [] = []"
| "paramNames (c # cs) =
     (if c = CHR ''$'' \<and> cs \<noteq> [] \<and> isWordChar (hd cs)
      then takeWhile isWordChar cs # paramNames (dropWhile isWordChar cs)
      else paramNames cs)"
  by pat_completeness auto
termination
  by (relation "measure length") (auto simp: length_dropWhile_le less_Suc_eq_le)

text \<open>
  The lazy group of \<open>/columns (.*?) are/\<close>: the shortest run of non-terminator
  characters after which the text \<open>needle\<close> follows.
\<close>

fun lazy_until :: "string \<Rightarrow> string \<Rightarrow> string option" where
  "lazy_until needle [] = (if needle = [] then Some [] else None)"
| "lazy_until needle (c # cs) =
     (if prefix needle (c # cs) then Some []
      else if at_line_terminator (c # cs) then None
      else map_option ((#) c) (lazy_until needle cs))"

text \<open>\<open>message.match(/columns (.*?) are/)\<close>: the group of the leftmost match.\<close>

fun match_columns :: "string \<Rightarrow> string option" where
  "match_columns [] = None"
| "match_columns (c # cs) =
     (if prefix ''columns '' (c # cs)
      then (case lazy_until '' are'' (drop (length ''columns '') (c # cs)) of
              Some g \<Rightarrow> Some g
            | None \<Rightarrow> match_columns cs)
      else match_columns cs)"

text \<open>The greedy group \<open>(.*)\<close>: everything up to the next line terminator.\<close>

fun dot_star :: "string \<Rightarrow> string" where
  "dot_star [] = []"
| "dot_star (c # cs) = (if at_line_terminator (c # cs) then [] else c # dot_star cs)"

text \<open>\<open>message.match(/UNIQUE constraint failed: (.*)/)\<close>: the group of the leftmost match.\<close>

fun match_unique :: "string \<Rightarrow> string option" where
  "match_unique [] = None"
| "match_unique (c # cs) =
     (if prefix ''UNIQUE constraint failed: '' (c # cs)
      then Some (dot_star (drop (length ''UNIQUE constraint failed: '') (c # cs)))
      else match_unique cs)"

text \<open>
  \<open>Array.prototype.join\<close>, and the shapes of text the messages of the engine are
  described with: an identifier is a run of word characters, a qualified column is
  \<open>table.column\<close>.
\<close>

fun join :: "string \<Rightarrow> string list \<Rightarrow> string" where
  "join sep [] = []"
| "join sep [x] = x"
| "join sep (x # y # ys) = x @ sep @ join sep (y # ys)"

definition is_identifier :: "string \<Rightarrow> bool" where
  "is_identifier s \<longleftrightarrow> (\<forall>c \<in> set s. isWordChar c)"

definition qualified_column :: "string \<times> string \<Rightarrow> string" where
  "qualified_column tc = fst tc @ ''.'' @ snd tc"

section \<open>Objects and arrays\<close>

text \<open>
  An object with string keys is the list of its own properties in the order of
  \<open>Object.keys\<close>; reading an absent property gives \<open>undefined\<close>.
\<close>

definition hasOwn :: "row \<Rightarrow> string \<Rightarrow> bool" where
  "hasOwn obj k \<longleftrightarrow> map_of obj k \<noteq> None"

definition getProp :: "row \<Rightarrow> string \<Rightarrow> jsval" where
  "getProp obj k = (case map_of obj k of Some v \<Rightarrow> v | None \<Rightarrow> Undefined)"

definition keys :: "row \<Rightarrow> string list" where
  "keys obj = map fst obj"

text \<open>Truthiness, as \<open>Boolean(v)\<close> and the conditions of \<open>if\<close>, \<open>&&\<close> and \<open>||\<close> see it.\<close>

fun truthy :: "jsval \<Rightarrow> bool" where
  "truthy Undefined = False"
| "truthy Null = False"
| "truthy (Bool b) = b"
| "truthy (Num n) = (n \<noteq> 0)"
| "truthy (BigInt n) = (n \<noteq> 0)"
| "truthy (Str s) = (s \<noteq> [])"
| "truthy (Buffer b) = True"
| "truthy (Inherited k) = True"

text \<open>
  The string a value becomes as a property key or inside a template literal. Every
  member of \<open>Object.prototype\<close> but \<open>__proto__\<close> is a function.
\<close>

fun js_toString :: "jsval \<Rightarrow> string" where
  "js_toString Undefined = ''undefined''"
| "js_toString Null = ''null''"
| "js_toString (Bool b) = (if b then ''true'' else ''false'')"
| "js_toString (Num n) = bigint_toString n"
| "js_toString (BigInt n) = bigint_toString n"
| "js_toString (Str s) = s"
| "js_toString (Buffer b) = b"
| "js_toString (Inherited k) =
     (if k = ''__proto__'' then ''[object Object]''
      else ''function '' @ k @ ''() { [native code] }'')"

text \<open>
  An array with holes: \<open>None\<close> is a hole. Writing at an index beyond the end extends
  the array with holes up to that index.
\<close>

definition array_set :: "'a option list \<Rightarrow> nat \<Rightarrow> 'a \<Rightarrow> 'a option list" where
  "array_set xs i v =
     (if i < length xs then xs[i := Some v]
      else xs @ replicate (i - length xs) None @ [Some v])"

text \<open>\<open>xs[i]\<close> on an array of strings: \<open>undefined\<close> beyond the end.\<close>

definition at_index :: "string list \<Rightarrow> nat \<Rightarrow> jsval" where
  "at_index xs i = (if i < length xs then Str (xs ! i) else Undefined)"

text \<open>
  The array index a property key denotes, if any: a non-negative integer, or the string
  of its canonical decimal form.
\<close>

definition canonical_index :: "string \<Rightarrow> nat option" where
  "canonical_index s =
     (if s \<noteq> [] \<and> (\<forall>c \<in> set s. c \<in> set ''0123456789'') \<and> (s = ''0'' \<or> hd s \<noteq> CHR ''0'')
      then Some (digits_value s) else None)"

fun array_index :: "jsval \<Rightarrow> nat option" where
  "array_index (Num n) = (if 0 \<le> n then Some (nat n) else None)"
| "array_index (Str s) = canonical_index s"
| "array_index v = canonical_index (js_toString v)"

section \<open>Parameter binder\<close>

text \<open>
  The parameters of a statement request: an array, a plain object, or nothing
  (\<open>undefined\<close> or \<open>null\<close>).
\<close>

datatype parameters = Positional "jsval list" | Named row | NoParameters

text \<open>
  The callback of \<open>paramNames.map\<close> in \<open>_convertNamedParamsToPositional\<close> (query.js,
  lines 275-294): the value bound for one placeholder name and the set \<open>usedKeys\<close>
  after it.
\<close>

definition resolveName :: "row \<Rightarrow> string set \<Rightarrow> string \<Rightarrow> jsval \<times> string set" where
  "resolveName namedParams usedKeys name =
     (let prefixed = CHR ''$'' # name in
      if hasOwn namedParams prefixed then (getProp namedParams prefixed, insert prefixed usedKeys)
      else if hasOwn namedParams name then (getProp namedParams name, insert name usedKeys)
      else (case find (\<lambda>key. key \<notin> usedKeys) (keys namedParams) of
              Some fallbackKey \<Rightarrow> (getProp namedParams fallbackKey, insert fallbackKey usedKeys)
            | None \<Rightarrow> (Null, usedKeys)))"

fun mapNames :: "row \<Rightarrow> string set \<Rightarrow> string list \<Rightarrow> jsval list" where
  "mapNames namedParams usedKeys [] = []"
| "mapNames namedParams usedKeys (name # names) =
     (case resolveName namedParams usedKeys name of
        (v, usedKeys') \<Rightarrow> v # mapNames namedParams usedKeys' names)"

text \<open>\<open>_convertNamedParamsToPositional\<close> (query.js, lines 264-295).\<close>

definition convertNamedParamsToPositional :: "string \<Rightarrow> row \<Rightarrow> jsval list" where
  "convertNamedParamsToPositional query namedParams =
     mapNames namedParams {} (paramNames query)"

text \<open>The set \<open>usedKeys\<close> when the callback runs for the placeholder at position \<open>i\<close>.\<close>

fun usedKeysAfter :: "row \<Rightarrow> string set \<Rightarrow> string list \<Rightarrow> string set" where
  "usedKeysAfter namedParams usedKeys [] = usedKeys"
| "usedKeysAfter namedParams usedKeys (name # names) =
     usedKeysAfter namedParams (snd (resolveName namedParams usedKeys name)) names"

definition usedKeysAt :: "row \<Rightarrow> string list \<Rightarrow> nat \<Rightarrow> string set" where
  "usedKeysAt namedParams names i = usedKeysAfter namedParams {} (take i names)"

text \<open>The key of the mapping that the placeholder at position \<open>i\<close> consumes, if any.\<close>

definition consumedKey :: "row \<Rightarrow> string list \<Rightarrow> nat \<Rightarrow> string option" where
  "consumedKey namedParams names i =
     (let name = names ! i; prefixed = CHR ''$'' # name in
      if hasOwn namedParams prefixed then Some prefixed
      else if hasOwn namedParams name then Some name
      else find (\<lambda>key. key \<notin> usedKeysAt namedParams names i) (keys namedParams))"

text \<open>
  The normalisation of the parameters at the head of \<open>executeSql\<close> in \<open>run\<close> (query.js,
  lines 172-189): nothing becomes the empty array; the keys of a plain object get the
  sigil and its values go through \<open>stringifyIfBigint\<close>, a later key that normalises to
  an earlier one overwriting its value; an array is mapped through \<open>stringifyIfBigint\<close>.
\<close>

definition normalizedKey :: "string \<Rightarrow> string" where
  "normalizedKey key = (if startsWith key ''$'' then key else CHR ''$'' # key)"

fun normalizeParameters :: "parameters \<Rightarrow> parameters" where
  "normalizeParameters NoParameters = Positional (map stringifyIfBigint [])"
| "normalizeParameters (Named ps) =
     Named (fold (\<lambda>(key, v). AList.update (normalizedKey key) (stringifyIfBigint v)) ps [])"
| "normalizeParameters (Positional xs) = Positional (map stringifyIfBigint xs)"

section \<open>Errors\<close>

text \<open>
  A raw engine error: its \<open>code\<close> (absent on errors that are not the engine's own), its
  message, and the SQL text \<open>run\<close> attaches before classifying it.
\<close>

record engine_error =
  code :: "string option"
  message :: string
  err_sql :: "string option"

text \<open>
  One \<open>ValidationErrorItem\<close> of a uniqueness violation: its message, its origin, the
  field and the validator key. The instance and its value at the field are passed
  along by reference and not inspected.
\<close>

record validation_item =
  item_message :: string
  item_origin :: string
  item_path :: jsval
  item_validatorKey :: string

text \<open>
  The classified errors. In the specification's words \<open>UniqueConstraintError\<close> is
  UniqueViolation, \<open>ForeignKeyConstraintError\<close> is ForeignKeyViolation, \<open>TimeoutError\<close>
  is BusyTimeout and \<open>DatabaseError\<close> is Generic. Each carries the raw error as its
  cause; a uniqueness violation also its message, its items and its fields.
\<close>

datatype classified =
    ForeignKeyConstraintError engine_error
  | UniqueConstraintError string "validation_item list" engine_error "jsval list"
  | TimeoutError engine_error
  | DatabaseError engine_error

datatype thrown = EmptyResultError | TypeError | Classified classified

section \<open>The query object\<close>

record query_options =
  returning :: bool
  plain :: bool

record column_def =
  attributeName :: string
  column_type :: string

record index_def =
  index_unique :: bool
  index_fields :: "jsval list"
  index_msg :: "string option"

record model_def =
  columns :: "string \<rightharpoonup> column_def"
  getIndexes :: "index_def list"

text \<open>One call of \<open>instance.set(key, value, {raw, comesFromDatabase})\<close>.\<close>

record set_call =
  set_key :: string
  set_value :: jsval
  set_raw :: bool
  set_comesFromDatabase :: bool

text \<open>
  A record instance as the query layer sees it: whether it has \<open>dataValues\<close>, and the
  calls of \<open>set\<close> made on it so far.
\<close>

record model_instance =
  dataValues :: "row option"
  setCalls :: "set_call list"

text \<open>
  The query object \<open>this\<close>. The classification predicates, \<open>_parseDatabaseValue\<close> and
  \<open>getUniqueConstraintErrorMessage\<close> belong to the abstract query of the core package;
  their results are inputs here. \<open>runNested\<close> is the outcome of the call of \<open>run\<close>
  that the index shaper makes for an SQL text.
\<close>

record query =
  sql :: string
  options :: query_options
  this_instance :: "model_instance option"
  model :: "model_def option"
  isInsertQuery :: bool
  isUpdateQuery :: bool
  isUpsertQuery :: bool
  isBulkUpdateQuery :: bool
  isDeleteQuery :: bool
  isShowConstraintsQuery :: bool
  isSelectQuery :: bool
  isShowOrDescribeQuery :: bool
  isRawQuery :: bool
  parseDatabaseValue :: "jsval \<Rightarrow> string option \<Rightarrow> jsval"
  getUniqueConstraintErrorMessage :: "jsval \<Rightarrow> string"
  runNested :: "string \<Rightarrow> thrown + row list"

section \<open>Error classifier\<close>

definition constraint_codes :: "string list" where
  "constraint_codes =
     [''SQLITE_CONSTRAINT_UNIQUE'', ''SQLITE_CONSTRAINT_PRIMARYKEY'',
      ''SQLITE_CONSTRAINT_TRIGGER'', ''SQLITE_CONSTRAINT_FOREIGNKEY'', ''SQLITE_CONSTRAINT'']"

text \<open>
  The fields of a uniqueness violation (query.js, lines 310-322): the older message
  form first, then the newer one, where each piece is replaced by its second
  dot-separated part.
\<close>

definition extractFields :: "string \<Rightarrow> jsval list" where
  "extractFields msg =
     (case match_columns msg of
        Some g \<Rightarrow> map Str (str_split '', '' g)
      | None \<Rightarrow>
          (case match_unique msg of
             Some g \<Rightarrow>
               map (\<lambda>columnWithTable. at_index (str_split ''.'' columnWithTable) 1)
                 (str_split '', '' g)
           | None \<Rightarrow> []))"

text \<open>
  The message of a uniqueness violation (query.js, lines 325-347): the message of the
  first unique index of the model with these fields and a message, the default
  otherwise.
\<close>

definition uniqueMessage :: "model_def option \<Rightarrow> jsval list \<Rightarrow> string" where
  "uniqueMessage m flds =
     (case m of
        None \<Rightarrow> ''Validation error''
      | Some md \<Rightarrow>
          (case find (\<lambda>index. index_unique index \<and> index_fields index = flds \<and>
                       (case index_msg index of Some t \<Rightarrow> t \<noteq> [] | None \<Rightarrow> False))
                  (getIndexes md) of
             Some index \<Rightarrow> the (index_msg index)
           | None \<Rightarrow> ''Validation error''))"

text \<open>\<open>formatError\<close> (query.js, lines 297-358).\<close>

definition formatError :: "query \<Rightarrow> engine_error \<Rightarrow> classified" where
  "formatError q err =
     (if code err \<in> Some ` set constraint_codes then
        (if str_includes (message err) ''FOREIGN KEY constraint failed''
         then ForeignKeyConstraintError err
         else
           (let flds = extractFields (message err);
                errors = map (\<lambda>fld.
                           \<lparr>item_message = getUniqueConstraintErrorMessage q fld,
                            item_origin = ''unique violation'',
                            item_path = fld,
                            item_validatorKey = ''not_unique''\<rparr>) flds
            in UniqueConstraintError (uniqueMessage (model q) flds) errors err flds))
      else if code err = Some ''SQLITE_BUSY'' then TimeoutError err
      else DatabaseError err)"

text \<open>The classification's kind, cause and fields, as the specification names them.\<close>

datatype error_kind = UniqueViolation | ForeignKeyViolation | BusyTimeout | Generic

fun kind :: "classified \<Rightarrow> error_kind" where
  "kind (ForeignKeyConstraintError c) = ForeignKeyViolation"
| "kind (UniqueConstraintError m es c fs) = UniqueViolation"
| "kind (TimeoutError c) = BusyTimeout"
| "kind (DatabaseError c) = Generic"

fun cause :: "classified \<Rightarrow> engine_error" where
  "cause (ForeignKeyConstraintError c) = c"
| "cause (UniqueConstraintError m es c fs) = c"
| "cause (TimeoutError c) = c"
| "cause (DatabaseError c) = c"

fun fields_of :: "classified \<Rightarrow> jsval list" where
  "fields_of (UniqueConstraintError m es c fs) = fs"
| "fields_of e = []"

section \<open>Execution-mode selector\<close>

datatype db_method = MethodAll | MethodRun

text \<open>\<open>getDatabaseMethod\<close> (query.js, lines 382-400): \<open>'all'\<close> or \<open>'run'\<close>.\<close>

definition getDatabaseMethod :: "query \<Rightarrow> db_method" where
  "getDatabaseMethod q =
     (if isBulkUpdateQuery q \<or> isInsertQuery q \<or> isUpdateQuery q \<or> isUpsertQuery q
      then (if returning (options q) then MethodAll else MethodRun)
      else if isDeleteQuery q \<or>
              str_includes (toLowerCase (sql q)) (toLowerCase ''CREATE TEMPORARY TABLE'')
      then MethodRun
      else MethodAll)"

section \<open>Statement runner\<close>

text \<open>
  The engine behind one connection: what \<open>prepare\<close> gives for an SQL text, and for a
  prepared statement what \<open>all\<close> and \<open>run\<close> give for an argument list and whether
  \<open>close\<close> throws. The connection also carries what \<open>exec\<close> and \<open>close\<close> do, its file
  name and its closed-flag, which the connection manager uses.
\<close>

record run_info =
  run_changes :: int
  lastInsertRowid :: int

record prepared_statement =
  stmt_all :: "jsval list \<Rightarrow> engine_error + row list"
  stmt_run :: "jsval list \<Rightarrow> engine_error + run_info"
  stmt_close :: "engine_error option"

record turso_connection =
  prepare :: "string \<Rightarrow> engine_error + prepared_statement"
  exec :: "string \<Rightarrow> engine_error option"
  close :: "engine_error option"
  filename :: "string option"
  closed :: "bool option"

record metadata =
  lastID :: int
  changes :: int

record series_response =
  statement :: metadata
  results :: "row list"

text \<open>The calls made on the engine while a statement is executed, in order.\<close>

datatype event = Prepare string | StmtAll "jsval list" | StmtRun "jsval list" | StmtClose

text \<open>
  The argument list both series spread into the statement call: an array as it is,
  an object through the named binder, anything else no argument at all.
\<close>

fun spreadArguments :: "string \<Rightarrow> parameters \<Rightarrow> jsval list" where
  "spreadArguments query (Positional xs) = xs"
| "spreadArguments query (Named namedParams) = convertNamedParamsToPositional query namedParams"
| "spreadArguments query NoParameters = []"

text \<open>
  \<open>try { ... } finally { stmt.close() }\<close>: the statement is closed whatever the body
  did; if \<open>close\<close> itself throws, that error replaces the body's outcome.
\<close>

definition finally_close :: "prepared_statement \<Rightarrow> engine_error + 'a \<Rightarrow> engine_error + 'a" where
  "finally_close stmt outcome = (case stmt_close stmt of Some e \<Rightarrow> Inl e | None \<Rightarrow> outcome)"

text \<open>\<open>#allSeries\<close> (query.js, lines 211-236): the outcome and the engine calls made.\<close>

definition allSeries ::
  "turso_connection \<Rightarrow> string \<Rightarrow> parameters \<Rightarrow> (engine_error + series_response) \<times> event list" where
  "allSeries connection query parameters =
     (case prepare connection query of
        Inl e \<Rightarrow> (Inl e, [Prepare query])
      | Inr stmt \<Rightarrow>
          (let args = spreadArguments query parameters;
               body = (case stmt_all stmt args of
                         Inl e \<Rightarrow> Inl e
                       | Inr rows \<Rightarrow>
                           Inr \<lparr>statement = \<lparr>lastID = 0, changes = 0\<rparr>, results = rows\<rparr>)
           in (finally_close stmt body, [Prepare query, StmtAll args, StmtClose])))"

text \<open>\<open>#runSeries\<close> (query.js, lines 238-262).\<close>

definition runSeries ::
  "turso_connection \<Rightarrow> string \<Rightarrow> parameters \<Rightarrow> (engine_error + series_response) \<times> event list" where
  "runSeries connection query parameters =
     (case prepare connection query of
        Inl e \<Rightarrow> (Inl e, [Prepare query])
      | Inr stmt \<Rightarrow>
          (let args = spreadArguments query parameters;
               body = (case stmt_run stmt args of
                         Inl e \<Rightarrow> Inl e
                       | Inr result \<Rightarrow>
                           Inr \<lparr>statement = \<lparr>lastID = lastInsertRowid result,
                                               changes = run_changes result\<rparr>,
                                results = []\<rparr>)
           in (finally_close stmt body, [Prepare query, StmtRun args, StmtClose])))"

section \<open>Result shaper\<close>

subsection \<open>Table information\<close>

record column_info =
  info_type :: jsval
  allowNull :: bool
  defaultValue :: jsval
  primaryKey :: bool

definition object_prototype_members :: "string list" where
  "object_prototype_members =
     [''constructor'', ''__defineGetter__'', ''__defineSetter__'', ''hasOwnProperty'',
      ''__lookupGetter__'', ''__lookupSetter__'', ''isPrototypeOf'', ''propertyIsEnumerable'',
      ''toString'', ''valueOf'', ''__proto__'', ''toLocaleString'']"

text \<open>The lookup \<open>{ 0: false, 1: true }[key]\<close>.\<close>

definition booleanTable :: "string \<Rightarrow> jsval" where
  "booleanTable key =
     (if key = ''0'' then Bool False
      else if key = ''1'' then Bool True
      else if key \<in> set object_prototype_members then Inherited key
      else Undefined)"

text \<open>One turn of the loop over the rows of \<open>PRAGMA TABLE_INFO\<close> (query.js, lines 127-152).\<close>

definition tableInfoColumn :: "row \<Rightarrow> column_info" where
  "tableInfoColumn r =
     (let dflt = getProp r ''dflt_value'';
          declared = (if dflt = Null then Undefined
                      else if dflt = Str ''NULL'' then Null
                      else dflt);
          booleaned = (if getProp r ''type'' = Str ''TINYINT(1)''
                       then booleanTable (js_toString declared) else declared);
          unquoted = (case booleaned of
                        Str t \<Rightarrow> Str (removeAll_char (CHR 0x27) t)
                      | _ \<Rightarrow> booleaned)
      in \<lparr>info_type = getProp r ''type'',
          allowNull = (getProp r ''notnull'' = Num 0),
          defaultValue = unquoted,
          primaryKey = (getProp r ''pk'' \<noteq> Num 0)\<rparr>)"

text \<open>The whole loop: the object keyed by column name (query.js, lines 123-155).\<close>

definition tableInfo :: "row list \<Rightarrow> (string \<rightharpoonup> column_info)" where
  "tableInfo rows =
     fold (\<lambda>r result. result(js_toString (getProp r ''name'') \<mapsto> tableInfoColumn r))
       rows Map.empty"

subsection \<open>Indexes\<close>

record index_field =
  attribute :: jsval
  field_length :: jsval
  field_order :: jsval

text \<open>
  A shaped index: the row as the engine returned it, and the properties the shaper sets
  on it.
\<close>

record index_item =
  item_row :: row
  item_fields :: "index_field option list"
  item_primary :: bool
  item_unique :: bool
  item_constraintName :: jsval

definition indexInfoSql :: "row \<Rightarrow> string" where
  "indexInfoSql item = ''PRAGMA INDEX_INFO(`'' @ js_toString (getProp item ''name'') @ ''`)''"

text \<open>
  The loop over the columns of one index (query.js, lines 369-375): each is written
  at the position its \<open>seqno\<close> names; a \<open>seqno\<close> that is no array index sets no element.
\<close>

definition seqnoOf :: "row \<Rightarrow> nat option" where
  "seqnoOf column = array_index (getProp column ''seqno'')"

definition fieldOf :: "row \<Rightarrow> index_field" where
  "fieldOf column =
     \<lparr>attribute = getProp column ''name'', field_length = Undefined, field_order = Undefined\<rparr>"

definition attachFields :: "row list \<Rightarrow> index_field option list" where
  "attachFields cols =
     fold (\<lambda>column fs.
             (case seqnoOf column of
                Some i \<Rightarrow> array_set fs i (fieldOf column)
              | None \<Rightarrow> fs))
       cols []"

text \<open>
  The callback of \<open>data.reverse().map\<close> (query.js, lines 363-378): the outcome for one
  index, and the SQL text of the follow-up call of \<open>run\<close> it issues.
\<close>

definition shapeIndex :: "query \<Rightarrow> row \<Rightarrow> (thrown + index_item) \<times> string" where
  "shapeIndex q item =
     (case runNested q (indexInfoSql item) of
        Inl e \<Rightarrow> (Inl e, indexInfoSql item)
      | Inr cols \<Rightarrow>
          (Inr \<lparr>item_row = item,
                item_fields = attachFields cols,
                item_primary = False,
                item_unique = truthy (getProp item ''unique''),
                item_constraintName = getProp item ''name''\<rparr>,
           indexInfoSql item))"

text \<open>
  \<open>Promise.all\<close>: the results in the order of the promises when all succeed; an error
  when one fails (here the first in the order of the list).
\<close>

fun promise_all :: "('e + 'a) list \<Rightarrow> 'e + 'a list" where
  "promise_all [] = Inr []"
| "promise_all (Inl e # ps) = Inl e"
| "promise_all (Inr x # ps) = (case promise_all ps of Inl e \<Rightarrow> Inl e | Inr xs \<Rightarrow> Inr (x # xs))"

text \<open>
  \<open>handleShowIndexesQuery\<close> (query.js, lines 360-380): the outcome, and the SQL texts
  of the follow-up calls in the order they are issued. Every callback runs up to its
  call of \<open>run\<close> before any of them resumes, so every call is issued.
\<close>

definition handleShowIndexesQuery ::
  "query \<Rightarrow> row list \<Rightarrow> (thrown + index_item list) \<times> string list" where
  "handleShowIndexesQuery q data =
     (let outcomes = map (shapeIndex q) (rev data)
      in (promise_all (map fst outcomes), map snd outcomes))"

subsection \<open>Mutations on a record instance\<close>

text \<open>
  The loop over the columns of the first returned row (query.js, lines 67-79). Reading
  \<open>this.model.modelDefinition\<close> without a model is a type error, raised in the first
  turn of the loop.
\<close>

definition setCallFor :: "query \<Rightarrow> model_def \<Rightarrow> row \<Rightarrow> string \<Rightarrow> set_call" where
  "setCallFor q m first attributeOrColumnName =
     (let attr = columns m attributeOrColumnName;
          updatedValue = parseDatabaseValue q (getProp first attributeOrColumnName)
                           (map_option column_type attr)
      in \<lparr>set_key = (case attr of Some a \<Rightarrow> attributeName a | None \<Rightarrow> attributeOrColumnName),
          set_value = updatedValue,
          set_raw = True,
          set_comesFromDatabase = True\<rparr>)"

definition applyRow :: "query \<Rightarrow> model_instance \<Rightarrow> row \<Rightarrow> thrown + model_instance" where
  "applyRow q inst first =
     (if keys first = [] then Inr inst
      else (case model q of
              None \<Rightarrow> Inl TypeError
            | Some m \<Rightarrow>
                Inr (inst\<lparr>setCalls := setCalls inst @ map (setCallFor q m first) (keys first)\<rparr>)))"

text \<open>
  The block guarded by \<open>this.instance && this.instance.dataValues\<close> (query.js, lines
  59-81): the instance after it, or the error it throws.
\<close>

definition populateInstance :: "query \<Rightarrow> row list \<Rightarrow> thrown + model_instance option" where
  "populateInstance q rows =
     (case this_instance q of
        None \<Rightarrow> Inr None
      | Some inst \<Rightarrow>
          (if dataValues inst = None then Inr (Some inst)
           else if isInsertQuery q \<and> \<not> isUpsertQuery q \<and> length rows = 0
           then Inl EmptyResultError
           else (case rows of
                   [] \<Rightarrow> Inr (Some inst)
                 | first # _ \<Rightarrow>
                     (case applyRow q inst first of
                        Inl e \<Rightarrow> Inl e
                      | Inr inst' \<Rightarrow> Inr (Some inst')))))"

subsection \<open>The shaped result\<close>

text \<open>
  The first component of a mutation's result,
  \<open>this.instance || (results && ((this.options.plain && results[0]) || results))\<close>.
\<close>

datatype mutation_subject = TheInstance model_instance | FirstRow row | AllRows "row list"

definition mutationSubject :: "query \<Rightarrow> model_instance option \<Rightarrow> row list \<Rightarrow> mutation_subject" where
  "mutationSubject q inst rows =
     (case inst of
        Some i \<Rightarrow> TheInstance i
      | None \<Rightarrow>
          (case rows of
             first # _ \<Rightarrow> if plain (options q) then FirstRow first else AllRows rows
           | [] \<Rightarrow> AllRows rows))"

text \<open>
  What \<open>_handleQueryResponse\<close> returns, one constructor for each \<open>return\<close>.
  \<open>Selected\<close> is the call of \<open>handleSelectQuery\<close> of the core package on the rows.
\<close>

datatype shaped =
    UpsertResult "model_instance option"
  | MutationResult mutation_subject int
  | ChangedRows int
  | Selected "row list"
  | Rows "row list"
  | Indexes "(thrown + index_item list) \<times> string list"
  | TableInfo "string \<rightharpoonup> column_info"
  | RawResult "row list" metadata
  | InstanceResult "model_instance option"

text \<open>\<open>_handleQueryResponse\<close> (query.js, lines 57-163).\<close>

definition handleQueryResponse :: "query \<Rightarrow> metadata \<Rightarrow> row list \<Rightarrow> thrown + shaped" where
  "handleQueryResponse q metaData rows =
     (if isInsertQuery q \<or> isUpdateQuery q \<or> isUpsertQuery q then
        (case populateInstance q rows of
           Inl e \<Rightarrow> Inl e
         | Inr inst \<Rightarrow>
             if isUpsertQuery q then Inr (UpsertResult inst)
             else Inr (MutationResult (mutationSubject q inst rows)
                         (if returning (options q) then int (length rows)
                          else changes metaData)))
      else if isBulkUpdateQuery q then
        Inr (if returning (options q) then Selected rows else ChangedRows (changes metaData))
      else if isDeleteQuery q then Inr (ChangedRows (changes metaData))
      else if isShowConstraintsQuery q then Inr (Rows rows)
      else if isSelectQuery q then Inr (Selected rows)
      else if isShowOrDescribeQuery q then Inr (Rows rows)
      else if str_includes (sql q) ''PRAGMA INDEX_LIST'' then
        Inr (Indexes (handleShowIndexesQuery q rows))
      else if str_includes (sql q) ''PRAGMA INDEX_INFO'' then Inr (Rows rows)
      else if str_includes (sql q) ''PRAGMA TABLE_INFO'' then Inr (TableInfo (tableInfo rows))
      else if isRawQuery q then Inr (RawResult rows metaData)
      else Inr (InstanceResult (this_instance q)))"

text \<open>The entry of a shaped table-information result for a column name.\<close>

definition columnInfoOf :: "thrown + shaped \<Rightarrow> string \<Rightarrow> column_info option" where
  "columnInfoOf res name = (case res of Inr (TableInfo result) \<Rightarrow> result name | _ \<Rightarrow> None)"

text \<open>
  The condition under which \<open>_handleQueryResponse\<close> reaches its table-information
  branch: no test before it holds, and the SQL text names the pragma.
\<close>

definition reachesTableInfo :: "query \<Rightarrow> bool" where
  "reachesTableInfo q \<longleftrightarrow>
     \<not> isInsertQuery q \<and> \<not> isUpdateQuery q \<and> \<not> isUpsertQuery q \<and> \<not> isBulkUpdateQuery q \<and>
     \<not> isDeleteQuery q \<and> \<not> isShowConstraintsQuery q \<and> \<not> isSelectQuery q \<and>
     \<not> isShowOrDescribeQuery q \<and>
     \<not> str_includes (sql q) ''PRAGMA INDEX_LIST'' \<and>
     \<not> str_includes (sql q) ''PRAGMA INDEX_INFO'' \<and>
     str_includes (sql q) ''PRAGMA TABLE_INFO''"

definition columnName :: "row \<Rightarrow> string" where
  "columnName r = js_toString (getProp r ''name'')"

section \<open>Connection manager\<close>

text \<open>
  The limits of a pool are natural numbers or \<open>Infinity\<close>; \<open>pool.read\<close> is present when
  read replication is configured.
\<close>

record pool_options =
  idleTimeoutMillis :: enat
  maxUsesPerResource :: enat
  maxSize :: enat

record pool =
  pool_write :: pool_options
  pool_read :: "pool_options option"

record connection_options =
  storage :: "string option"
  password :: "string option"
  url :: "string option"
  authToken :: "string option"
  enableWal :: "bool option"

text \<open>The engine module: what its \<open>connect\<close> gives for a local path and for a remote URL.\<close>

record turso_module =
  lib_connect :: "string \<Rightarrow> engine_error + turso_connection"
  lib_connect_remote :: "string \<Rightarrow> string \<Rightarrow> engine_error + turso_connection"

text \<open>
  What the connection manager finds around it: the outcome of loading the engine module,
  the pool and the \<open>foreignKeys\<close> option of the dialect, the default storage path, and
  the file-system and escaping helpers it calls.
\<close>

record manager =
  getLib :: "engine_error + turso_module"
  sequelize_pool :: pool
  foreignKeys :: "bool option"
  defaultStorage :: string
  dirname :: "string \<Rightarrow> string"
  checkFileExists :: "string \<Rightarrow> bool"
  mkdir :: "string \<Rightarrow> engine_error option"
  escape :: "string \<Rightarrow> string"

text \<open>
  The errors \<open>connect\<close> throws: the four of the guard for temporary storage, the two
  plain errors before it, a \<open>ConnectionError\<close> around an engine error, and an error
  passed on as it came.
\<close>

datatype connect_error =
    ModuleUnavailable
  | AuthTokenRequired
  | IdleConnectionsClosed
  | ConnectionsClosedAfterUses
  | MoreThanOneConnection
  | ReadReplicationEnabled
  | ConnectionError engine_error
  | Passed engine_error

text \<open>The calls \<open>connect\<close> and \<open>disconnect\<close> make on the engine and the file system.\<close>

datatype connect_event =
    LibConnect string
  | LibConnectRemote string string
  | Mkdir string
  | Exec string
  | Close

definition present :: "string option \<Rightarrow> bool" where
  "present v \<longleftrightarrow> (case v of Some t \<Rightarrow> t \<noteq> [] | None \<Rightarrow> False)"

definition isTemporaryStorage :: "string \<Rightarrow> bool" where
  "isTemporaryStorage st \<longleftrightarrow> st = '':memory:'' \<or> st = []"

text \<open>The guard for temporary storage (connection-manager.ts, lines 194-218).\<close>

definition temporaryStorageGuard :: "pool \<Rightarrow> connect_error option" where
  "temporaryStorageGuard p =
     (let writePool = pool_write p in
      if idleTimeoutMillis writePool \<noteq> \<infinity> then Some IdleConnectionsClosed
      else if maxUsesPerResource writePool \<noteq> \<infinity> then Some ConnectionsClosedAfterUses
      else if maxSize writePool \<noteq> 1 then Some MoreThanOneConnection
      else if pool_read p \<noteq> None then Some ReadReplicationEnabled
      else None)"

text \<open>
  The statements run on a fresh local connection (connection-manager.ts, lines
  235-265): a failure of the first two is thrown, a failure of the third is only
  logged.
\<close>

definition setupConnection ::
  "manager \<Rightarrow> connection_options \<Rightarrow> turso_connection \<Rightarrow> engine_error option \<times> connect_event list" where
  "setupConnection mgr opts c =
     (let keySql = ''PRAGMA KEY='' @ escape mgr (the (password opts));
          fkSql = ''PRAGMA foreign_keys = ON'';
          walSql = ''PRAGMA journal_mode = WAL'';
          ev1 = (if present (password opts) then [Exec keySql] else []);
          ev2 = (if foreignKeys mgr \<noteq> Some False then [Exec fkSql] else []);
          ev3 = (if enableWal opts \<noteq> Some False then [Exec walSql] else [])
      in if present (password opts) \<and> exec c keySql \<noteq> None then (exec c keySql, ev1)
         else if foreignKeys mgr \<noteq> Some False \<and> exec c fkSql \<noteq> None
         then (exec c fkSql, ev1 @ ev2)
         else (None, ev1 @ ev2 @ ev3))"

text \<open>The local branch of \<open>connect\<close> (connection-manager.ts, lines 191-273).\<close>

definition connectLocal ::
  "manager \<Rightarrow> turso_module \<Rightarrow> connection_options \<Rightarrow>
     (connect_error + turso_connection) \<times> connect_event list" where
  "connectLocal mgr lib opts =
     (let st = (case storage opts of Some t \<Rightarrow> t | None \<Rightarrow> defaultStorage mgr);
          temporary = isTemporaryStorage st;
          storageDir = dirname mgr st;
          needsDir = \<not> temporary \<and> \<not> checkFileExists mgr storageDir;
          ev0 = (if needsDir then [Mkdir storageDir] else [])
      in case (if temporary then temporaryStorageGuard (sequelize_pool mgr) else None) of
           Some e \<Rightarrow> (Inl e, [])
         | None \<Rightarrow>
             (case (if needsDir then mkdir mgr storageDir else None) of
                Some e \<Rightarrow> (Inl (Passed e), ev0)
              | None \<Rightarrow>
                  (case lib_connect lib st of
                     Inl e \<Rightarrow> (Inl (ConnectionError e), ev0 @ [LibConnect st])
                   | Inr c \<Rightarrow>
                       (let tursoConnection = c\<lparr>filename := Some st\<rparr> in
                        case setupConnection mgr opts tursoConnection of
                          (Some e, evs) \<Rightarrow> (Inl (ConnectionError e), ev0 @ [LibConnect st] @ evs)
                        | (None, evs) \<Rightarrow> (Inr tursoConnection, ev0 @ [LibConnect st] @ evs)))))"

text \<open>\<open>connect\<close> (connection-manager.ts, lines 156-274): the outcome and the calls made.\<close>

definition connect ::
  "manager \<Rightarrow> connection_options \<Rightarrow> (connect_error + turso_connection) \<times> connect_event list" where
  "connect mgr opts =
     (case getLib mgr of
        Inl err \<Rightarrow>
          (if code err = Some ''ERR_MODULE_NOT_FOUND'' \<or> code err = Some ''MODULE_NOT_FOUND''
           then (Inl ModuleUnavailable, [])
           else (Inl (Passed err), []))
      | Inr lib \<Rightarrow>
          (if present (url opts) then
             (if \<not> present (authToken opts) then (Inl AuthTokenRequired, [])
              else (case lib_connect_remote lib (the (url opts)) (the (authToken opts)) of
                      Inl e \<Rightarrow> (Inl (ConnectionError e),
                                [LibConnectRemote (the (url opts)) (the (authToken opts))])
                    | Inr db \<Rightarrow> (Inr db,
                                [LibConnectRemote (the (url opts)) (the (authToken opts))])))
           else connectLocal mgr lib opts))"

text \<open>\<open>validate\<close> (connection-manager.ts, lines 276-278).\<close>

definition validate :: "turso_connection \<Rightarrow> bool" where
  "validate connection \<longleftrightarrow> \<not> (closed connection = Some True)"

text \<open>
  \<open>disconnect\<close> (connection-manager.ts, lines 280-292): the outcome, the connection
  after it and the calls made.
\<close>

definition disconnect ::
  "turso_connection \<Rightarrow> (engine_error + unit) \<times> turso_connection \<times> connect_event list" where
  "disconnect connection =
     (if closed connection = Some True then (Inr (), connection, [])
      else (case close connection of
              Some err \<Rightarrow> (Inl err, connection, [Close])
            | None \<Rightarrow> (Inr (), connection\<lparr>closed := Some True\<rparr>, [Close])))"

section \<open>A query to run the definitions on\<close>

definition example_query :: query where
  "example_query =
     \<lparr>sql = ''SELECT 1'',
      options = \<lparr>returning = False, plain = False\<rparr>,
      this_instance = None,
      model = None,
      isInsertQuery = False, isUpdateQuery = False, isUpsertQuery = False,
      isBulkUpdateQuery = False, isDeleteQuery = False, isShowConstraintsQuery = False,
      isSelectQuery = False, isShowOrDescribeQuery = False, isRawQuery = False,
      parseDatabaseValue = (\<lambda>v t. v),
      getUniqueConstraintErrorMessage = (\<lambda>fld. js_toString fld @ '' must be unique''),
      runNested = (\<lambda>text. Inr [])\<rparr>"

definition users_model :: model_def where
  "users_model =
     \<lparr>columns = [''id'' \<mapsto> \<lparr>attributeName = ''id'', column_type = ''INTEGER''\<rparr>,
                 ''user_name'' \<mapsto> \<lparr>attributeName = ''userName'', column_type = ''TEXT''\<rparr>],
      getIndexes = []\<rparr>"

definition insert_query :: query where
  "insert_query =
     example_query
       \<lparr>sql := ''INSERT INTO users (user_name) VALUES ($1) RETURNING *'',
        options := \<lparr>returning = True, plain = False\<rparr>,
        this_instance := Some \<lparr>dataValues = Some [(''userName'', Str ''ann'')], setCalls = []\<rparr>,
        model := Some users_model,
        isInsertQuery := True\<rparr>"

definition table_info_query :: query where
  "table_info_query = example_query\<lparr>sql := ''PRAGMA TABLE_INFO(`users`)''\<rparr>"

definition active_row :: row where
  "active_row =
     [(''cid'', Num 3), (''name'', Str ''active''), (''type'', Str ''TINYINT(1)''),
      (''notnull'', Num 0), (''dflt_value'', Str ''1''), (''pk'', Num 0)]"

definition index_query :: query where
  "index_query =
     example_query
       \<lparr>sql := ''PRAGMA INDEX_LIST(`users`)'',
        runNested := (\<lambda>text.
          if text = ''PRAGMA INDEX_INFO(`users_tenant_email`)''
          then Inr [[(''seqno'', Num 1), (''cid'', Num 2), (''name'', Str ''email'')],
                    [(''seqno'', Num 0), (''cid'', Num 1), (''name'', Str ''tenant'')]]
          else if text = ''PRAGMA INDEX_INFO(`users_age`)''
          then Inr [[(''seqno'', Num 0), (''cid'', Num 3), (''name'', Str ''age'')]]
          else Inl (Classified (DatabaseError
                 \<lparr>code = Some ''SQLITE_ERROR'', message = ''no such index'',
                  err_sql = Some text\<rparr>)))\<rparr>"

definition index_rows :: "row list" where
  "index_rows =
     [[(''seq'', Num 0), (''name'', Str ''users_age''), (''unique'', Num 0)],
      [(''seq'', Num 1), (''name'', Str ''users_tenant_email''), (''unique'', Num 1)]]"

definition example_statement :: prepared_statement where
  "example_statement =
     \<lparr>stmt_all = (\<lambda>args. Inr [[(''id'', Num 1)], [(''id'', Num 2)]]),
      stmt_run = (\<lambda>args. Inl \<lparr>code = Some ''SQLITE_BUSY'', message = ''database is locked'',
                              err_sql = None\<rparr>),
      stmt_close = None\<rparr>"

definition example_connection :: turso_connection where
  "example_connection =
     \<lparr>prepare = (\<lambda>text. Inr example_statement),
      exec = (\<lambda>text. None),
      close = None,
      filename = None,
      closed = None\<rparr>"

definition example_module :: turso_module where
  "example_module =
     \<lparr>lib_connect = (\<lambda>path. Inr example_connection),
      lib_connect_remote = (\<lambda>address token. Inr example_connection)\<rparr>"

definition memory_manager :: manager where
  "memory_manager =
     \<lparr>getLib = Inr example_module,
      sequelize_pool =
        \<lparr>pool_write = \<lparr>idleTimeoutMillis = \<infinity>, maxUsesPerResource = \<infinity>, maxSize = 5\<rparr>,
         pool_read = None\<rparr>,
      foreignKeys = None,
      defaultStorage = ''/srv/app/sequelize.turso'',
      dirname = (\<lambda>path. ''/srv/app''),
      checkFileExists = (\<lambda>path. True),
      mkdir = (\<lambda>path. None),
      escape = (\<lambda>text. CHR 0x27 # text @ [CHR 0x27])\<rparr>"

definition memory_options :: connection_options where
  "memory_options =
     \<lparr>storage = Some '':memory:'', password = None, url = None, authToken = None,
      enableWal = None\<rparr>"

section \<open>Decimal strings\<close>

lemma digit_char_in: "d < 10 \<Longrightarrow> digit_char d \<in> set ''0123456789''"
  unfolding digit_char_def by (rule nth_mem) simp

lemma digit_val_digit_char_all: "\<forall>d \<in> set [0..<10]. digit_val (digit_char d) = d"
  by code_simp

lemma digit_val_digit_char: "d < 10 \<Longrightarrow> digit_val (digit_char d) = d"
  using digit_val_digit_char_all by simp

lemma digits_value_snoc: "digits_value (s @ [c]) = 10 * digits_value s + digit_val c"
  by (simp add: digits_value_def)

lemma digits_value_digits: "digits_value (digits n) = n"
proof (induction n rule: digits.induct)
  case (1 n)
  show ?case
  proof (cases "n < 10")
    case True
    then show ?thesis
      by (subst digits.simps) (simp add: digits_value_def digit_val_digit_char)
  next
    case False
    with 1 show ?thesis
      by (subst digits.simps) (simp add: digits_value_snoc digit_val_digit_char)
  qed
qed

lemma digits_chars: "set (digits n) \<subseteq> set ''0123456789''"
proof (induction n rule: digits.induct)
  case (1 n)
  show ?case
  proof (cases "n < 10")
    case True
    then show ?thesis
      using digit_char_in [of n] by (subst digits.simps) simp
  next
    case False
    with 1 show ?thesis
      using digit_char_in [of "n mod 10"] by (subst digits.simps) simp
  qed
qed

lemma digits_not_Nil: "digits n \<noteq> []"
  by (subst digits.simps) simp

lemma parse_bigint_toString: "parse_bigint (bigint_toString n) = n"
proof (cases "n < 0")
  case True
  then show ?thesis
    by (simp add: parse_bigint_def bigint_toString_def digits_value_digits)
next
  case False
  obtain c cs where d: "digits (nat n) = c # cs"
    using digits_not_Nil [of "nat n"] by (cases "digits (nat n)") auto
  have "c \<in> set ''0123456789''"
    using digits_chars [of "nat n"] d by auto
  then have "c \<noteq> CHR ''-''" by auto
  with False d show ?thesis
    using digits_value_digits [of "nat n"]
    by (simp add: parse_bigint_def bigint_toString_def)
qed

lemma list2: "length ys = 2 \<Longrightarrow> ys = [ys ! 0, ys ! 1]"
  by (cases ys; cases "tl ys") auto

section \<open>Properties of the parameter binder\<close>

text \<open>
  Claim C6. For every positional parameter sequence the binder's output has the same
  length and, position by position, the same element, except that a bigint element is
  replaced by its decimal string; the decimal string reads back as the same integer, so
  nothing is lost.
\<close>

theorem positional_binder_passthrough:
  "\<exists>ys. normalizeParameters (Positional xs) = Positional ys \<and> length ys = length xs \<and>
     (\<forall>i<length xs.
        (case xs ! i of
           BigInt n \<Rightarrow> ys ! i = Str (bigint_toString n) \<and> parse_bigint (bigint_toString n) = n
         | v \<Rightarrow> ys ! i = v))"
  by (auto simp: parse_bigint_toString split: jsval.splits)

text \<open>The example of the claim: \<open>bind([1, 9223372036854775807n])\<close>.\<close>

theorem positional_binder_passthrough_witness:
  "normalizeParameters (Positional [Num 1, BigInt 9223372036854775807]) =
     Positional [Num 1, Str ''9223372036854775807'']"
proof -
  let ?xs = "[Num 1, BigInt 9223372036854775807]"
  have e: "bigint_toString 9223372036854775807 = ''9223372036854775807''"
    by (simp add: bigint_toString_def digits.simps digit_char_def)
  from positional_binder_passthrough [of ?xs]
  obtain ys where ys: "normalizeParameters (Positional ?xs) = Positional ys"
    and len: "length ys = length ?xs"
    and el: "\<forall>i<length ?xs. (case ?xs ! i of
           BigInt n \<Rightarrow> ys ! i = Str (bigint_toString n) \<and> parse_bigint (bigint_toString n) = n
         | v \<Rightarrow> ys ! i = v)"
    by blast
  have l2: "length ys = 2" using len by simp
  have i0: "0 < length ?xs" and i1: "1 < length ?xs" by simp_all
  have y0: "ys ! 0 = Num 1"
    using el [rule_format, OF i0] by simp
  have y1: "ys ! 1 = Str ''9223372036854775807''"
    using el [rule_format, OF i1] e by simp
  have "ys = [Num 1, Str ''9223372036854775807'']"
    using list2 [OF l2] y0 y1 by simp
  with ys show ?thesis by simp
qed

subsection \<open>The named binder\<close>

lemma dollar_not_word: "\<not> isWordChar (CHR ''$'')"
  by (simp add: isWordChar_def)

lemma takeWhile_name:
  assumes "\<forall>c \<in> set name. isWordChar c" "rest = [] \<or> \<not> isWordChar (hd rest)"
  shows "takeWhile isWordChar (name @ rest) = name"
    and "dropWhile isWordChar (name @ rest) = rest"
  using assms by (cases rest; simp add: takeWhile_append2 dropWhile_append2)+

lemma paramNames_skip:
  "\<not> (c = CHR ''$'' \<and> cs \<noteq> [] \<and> isWordChar (hd cs)) \<Longrightarrow> paramNames (c # cs) = paramNames cs"
  by auto

lemma paramNames_take:
  "c = CHR ''$'' \<and> cs \<noteq> [] \<and> isWordChar (hd cs) \<Longrightarrow>
     paramNames (c # cs) = takeWhile isWordChar cs # paramNames (dropWhile isWordChar cs)"
  by simp

lemma paramNames_placeholder:
  assumes "name \<noteq> []" "\<forall>c \<in> set name. isWordChar c" "rest = [] \<or> \<not> isWordChar (hd rest)"
  shows "paramNames (pre @ CHR ''$'' # name @ rest) = paramNames pre @ name # paramNames rest"
proof (induction pre rule: paramNames.induct)
  case 1
  have "name @ rest \<noteq> [] \<and> isWordChar (hd (name @ rest))"
    using assms(1,2) by (cases name) auto
  then have "paramNames (CHR ''$'' # name @ rest) =
      takeWhile isWordChar (name @ rest) # paramNames (dropWhile isWordChar (name @ rest))"
    by (intro paramNames_take) simp
  then show ?case
    using takeWhile_name [OF assms(2,3)] by simp
next
  case (2 c cs)
  let ?tail = "CHR ''$'' # name @ rest"
  show ?case
  proof (cases "c = CHR ''$'' \<and> cs \<noteq> [] \<and> isWordChar (hd cs)")
    case True
    then have full: "c = CHR ''$'' \<and> cs @ ?tail \<noteq> [] \<and> isWordChar (hd (cs @ ?tail))"
      by (cases cs) auto
    have tw: "takeWhile isWordChar (cs @ ?tail) = takeWhile isWordChar cs"
      by (rule takeWhile_tail) (simp add: dollar_not_word)
    have dw: "dropWhile isWordChar (cs @ ?tail) = dropWhile isWordChar cs @ ?tail"
      by (rule dropWhile_append3) (simp add: dollar_not_word)
    have ih: "paramNames (dropWhile isWordChar cs @ ?tail) =
        paramNames (dropWhile isWordChar cs) @ name # paramNames rest"
      using 2(1) True by blast
    have "paramNames ((c # cs) @ ?tail) =
        takeWhile isWordChar cs # paramNames (dropWhile isWordChar cs @ ?tail)"
      using paramNames_take [OF full] tw dw by simp
    also have "\<dots> = paramNames (c # cs) @ name # paramNames rest"
      using ih paramNames_take [OF True] by simp
    finally show ?thesis .
  next
    case False
    then have full: "\<not> (c = CHR ''$'' \<and> cs @ ?tail \<noteq> [] \<and> isWordChar (hd (cs @ ?tail)))"
      by (cases cs) (auto simp: dollar_not_word)
    have ih: "paramNames (cs @ ?tail) = paramNames cs @ name # paramNames rest"
      using 2(2) False by blast
    have "paramNames ((c # cs) @ ?tail) = paramNames (cs @ ?tail)"
      using paramNames_skip [OF full] by simp
    also have "\<dots> = paramNames (c # cs) @ name # paramNames rest"
      using ih paramNames_skip [OF False] by simp
    finally show ?thesis .
  qed
qed

lemma paramNames_none:
  "\<forall>i. Suc i < length q \<longrightarrow> \<not> (q ! i = CHR ''$'' \<and> isWordChar (q ! Suc i)) \<Longrightarrow> paramNames q = []"
proof (induction q rule: paramNames.induct)
  case 1
  then show ?case by simp
next
  case (2 c cs)
  have no: "\<not> (c = CHR ''$'' \<and> cs \<noteq> [] \<and> isWordChar (hd cs))"
    using 2(3) [rule_format, of 0] by (cases cs) auto
  have "\<forall>i. Suc i < length cs \<longrightarrow> \<not> (cs ! i = CHR ''$'' \<and> isWordChar (cs ! Suc i))"
    using 2(3) [rule_format, of "Suc _"] by auto
  with 2(2) no have "paramNames cs = []" by blast
  with paramNames_skip [OF no] show ?case by simp
qed

lemma length_mapNames: "length (mapNames np used names) = length names"
  by (induction names arbitrary: used) (auto split: prod.splits)

lemma usedKeysAfter_snoc:
  "usedKeysAfter np used (names @ [name]) = snd (resolveName np (usedKeysAfter np used names) name)"
  by (induction names arbitrary: used) auto

lemma mapNames_nth:
  "i < length names \<Longrightarrow>
     mapNames np used names ! i = fst (resolveName np (usedKeysAfter np used (take i names)) (names ! i))"
proof (induction names arbitrary: used i)
  case Nil
  then show ?case by simp
next
  case (Cons name names)
  show ?case
  proof (cases i)
    case 0
    then show ?thesis by (simp split: prod.splits)
  next
    case (Suc j)
    with Cons.prems have "j < length names" by simp
    from Cons.IH [OF this] Suc show ?thesis by (simp split: prod.splits)
  qed
qed

lemma resolveName_fst:
  "fst (resolveName np used name) =
     (case map_of np (CHR ''$'' # name) of
        Some v \<Rightarrow> v
      | None \<Rightarrow>
          (case map_of np name of
             Some v \<Rightarrow> v
           | None \<Rightarrow>
               (case find (\<lambda>key. key \<notin> used) (keys np) of
                  Some fallbackKey \<Rightarrow> the (map_of np fallbackKey)
                | None \<Rightarrow> Null)))"
proof -
  have "find (\<lambda>key. key \<notin> used) (keys np) = Some k \<Longrightarrow> map_of np k \<noteq> None" for k
    by (auto simp: find_Some_iff keys_def map_of_eq_None_iff)
  then show ?thesis
    by (auto simp: resolveName_def hasOwn_def getProp_def Let_def split: option.splits)
qed

lemma resolveName_snd:
  "snd (resolveName np used name) =
     used \<union> set_option
       (if hasOwn np (CHR ''$'' # name) then Some (CHR ''$'' # name)
        else if hasOwn np name then Some name
        else find (\<lambda>key. key \<notin> used) (keys np))"
  by (auto simp: resolveName_def Let_def split: option.splits)


text \<open>
  Claim C1. For every SQL text and every named-parameter mapping, the binder returns one
  value for each placeholder the scan finds, in order. The value at a position is that
  of the sigil-prefixed key if the mapping has it, else that of the bare key, else that
  of the first key of the mapping outside the used-keys set, else null. The used-keys
  set starts empty and grows by the key each placeholder consumes. An SQL text with no
  \<open>$\<close> before a word character gives the empty list. The scan itself is left to
  right and keeps duplicates: a text that ends in a placeholder \<open>$name\<close> and a rest
  gives the names of the text before it, then \<open>name\<close>, then the names of the rest.
\<close>

theorem named_binder_resolution:
  "(let names = paramNames query;
        out = convertNamedParamsToPositional query namedParams
    in length out = length names \<and>
       (\<forall>i<length names.
          out ! i =
            (case map_of namedParams (CHR ''$'' # names ! i) of
               Some v \<Rightarrow> v
             | None \<Rightarrow>
                 (case map_of namedParams (names ! i) of
                    Some v \<Rightarrow> v
                  | None \<Rightarrow>
                      (case find (\<lambda>key. key \<notin> usedKeysAt namedParams names i) (keys namedParams) of
                         Some fallbackKey \<Rightarrow> the (map_of namedParams fallbackKey)
                       | None \<Rightarrow> Null))) \<and>
          usedKeysAt namedParams names (Suc i) =
            usedKeysAt namedParams names i \<union> set_option (consumedKey namedParams names i)) \<and>
       usedKeysAt namedParams names 0 = {} \<and>
       ((\<forall>i. Suc i < length query \<longrightarrow> \<not> (query ! i = CHR ''$'' \<and> isWordChar (query ! Suc i)))
          \<longrightarrow> out = [])) \<and>
   (\<forall>pre name rest.
      name \<noteq> [] \<and> (\<forall>c \<in> set name. isWordChar c) \<and> (rest = [] \<or> \<not> isWordChar (hd rest)) \<longrightarrow>
      paramNames (pre @ CHR ''$'' # name @ rest) = paramNames pre @ name # paramNames rest)"
proof -
  let ?names = "paramNames query"
  let ?out = "convertNamedParamsToPositional query namedParams"
  have len: "length ?out = length ?names"
    by (simp add: convertNamedParamsToPositional_def length_mapNames)
  have el: "?out ! i =
            (case map_of namedParams (CHR ''$'' # ?names ! i) of
               Some v \<Rightarrow> v
             | None \<Rightarrow>
                 (case map_of namedParams (?names ! i) of
                    Some v \<Rightarrow> v
                  | None \<Rightarrow>
                      (case find (\<lambda>key. key \<notin> usedKeysAt namedParams ?names i) (keys namedParams) of
                         Some fallbackKey \<Rightarrow> the (map_of namedParams fallbackKey)
                       | None \<Rightarrow> Null)))" if "i < length ?names" for i
    unfolding convertNamedParamsToPositional_def usedKeysAt_def
    using mapNames_nth [OF that, of namedParams "{}"]
    by (simp add: resolveName_fst)
  have used: "usedKeysAt namedParams ?names (Suc i) =
            usedKeysAt namedParams ?names i \<union> set_option (consumedKey namedParams ?names i)"
    if "i < length ?names" for i
  proof -
    have "take (Suc i) ?names = take i ?names @ [?names ! i]"
      using that by (simp add: take_Suc_conv_app_nth)
    then show ?thesis
      by (simp add: usedKeysAt_def usedKeysAfter_snoc resolveName_snd consumedKey_def Let_def)
  qed
  have zero: "usedKeysAt namedParams ?names 0 = {}"
    by (simp add: usedKeysAt_def)
  have none: "?out = []"
    if "\<forall>i. Suc i < length query \<longrightarrow> \<not> (query ! i = CHR ''$'' \<and> isWordChar (query ! Suc i))"
    using paramNames_none [OF that] by (simp add: convertNamedParamsToPositional_def)
  have scan: "paramNames (pre @ CHR ''$'' # name @ rest) = paramNames pre @ name # paramNames rest"
    if "name \<noteq> [] \<and> (\<forall>c \<in> set name. isWordChar c) \<and> (rest = [] \<or> \<not> isWordChar (hd rest))"
    for pre name rest
    using that paramNames_placeholder by blast
  show ?thesis
    unfolding Let_def using len el used zero none scan by blast
qed

text \<open>
  A run of all four cases: the sigil-prefixed key, the bare key, the fallback to the
  first unused key, a repeated placeholder, and null when every key is used.
\<close>

theorem named_binder_resolution_witness:
  "convertNamedParamsToPositional ''WHERE a = $a AND b = $b AND c = $c AND d = $a AND e = $e''
     [(''$a'', Num 1), (''b'', Num 2), (''x'', Num 3)] ! 2 = Num 3 \<and>
   convertNamedParamsToPositional ''WHERE a = $a AND b = $b AND c = $c AND d = $a AND e = $e''
     [(''$a'', Num 1), (''b'', Num 2), (''x'', Num 3)] = [Num 1, Num 2, Num 3, Num 1, Null]"
proof -
  let ?q = "''WHERE a = $a AND b = $b AND c = $c AND d = $a AND e = $e''"
  let ?np = "[(''$a'', Num 1), (''b'', Num 2), (''x'', Num 3)]"
  have names: "paramNames ?q = [''a'', ''b'', ''c'', ''a'', ''e'']"
    by (simp add: isWordChar_def)
  have used: "usedKeysAt ?np [''a'', ''b'', ''c'', ''a'', ''e''] 2 = {''$a'', ''b''}"
    by (auto simp: usedKeysAt_def resolveName_def hasOwn_def getProp_def keys_def
        numeral_2_eq_2)
  have i2: "2 < length (paramNames ?q)"
    unfolding names by simp
  note third = named_binder_resolution [of ?q ?np, unfolded Let_def, THEN conjunct1,
      THEN conjunct2, THEN conjunct1, rule_format, OF i2, THEN conjunct1]
  have "convertNamedParamsToPositional ?q ?np ! 2 = Num 3"
    using third unfolding names used by (simp add: keys_def)
  moreover have "convertNamedParamsToPositional ?q ?np = [Num 1, Num 2, Num 3, Num 1, Null]"
    unfolding convertNamedParamsToPositional_def names
    by (simp add: resolveName_def hasOwn_def getProp_def keys_def)
  ultimately show ?thesis by simp
qed

section \<open>Properties of the error classifier\<close>

lemma split_acc_piece:
  "s0 \<notin> set p \<Longrightarrow>
     split_acc (s0 # ss) acc (p @ (s0 # ss) @ rest) = (rev acc @ p) # split_acc (s0 # ss) [] rest"
  by (induction p arbitrary: acc) auto

lemma split_acc_last: "s0 \<notin> set p \<Longrightarrow> split_acc (s0 # ss) acc p = [rev acc @ p]"
  by (induction p arbitrary: acc) auto

lemma split_acc_join:
  "\<forall>p \<in> set (x # xs). s0 \<notin> set p \<Longrightarrow>
     split_acc (s0 # ss) acc (join (s0 # ss) (x # xs)) = (rev acc @ x) # xs"
proof (induction xs arbitrary: x acc)
  case Nil
  then show ?case by (simp add: split_acc_last)
next
  case (Cons y ys)
  have "split_acc (s0 # ss) acc (x @ (s0 # ss) @ join (s0 # ss) (y # ys)) =
      (rev acc @ x) # split_acc (s0 # ss) [] (join (s0 # ss) (y # ys))"
    using Cons.prems by (intro split_acc_piece) simp
  moreover have "split_acc (s0 # ss) [] (join (s0 # ss) (y # ys)) = y # ys"
    using Cons.IH [of y "[]"] Cons.prems by simp
  ultimately show ?case by simp
qed

lemma str_split_join:
  "pieces \<noteq> [] \<Longrightarrow> \<forall>p \<in> set pieces. s0 \<notin> set p \<Longrightarrow>
     str_split (s0 # ss) (join (s0 # ss) pieces) = pieces"
  using split_acc_join [of "hd pieces" "tl pieces" s0 ss "[]"]
  by (cases pieces) (auto simp: str_split_def)

lemma field_of_qualified:
  "CHR ''.'' \<notin> set t \<Longrightarrow> CHR ''.'' \<notin> set c \<Longrightarrow>
     at_index (str_split ''.'' (qualified_column (t, c))) 1 = Str c"
  using split_acc_piece [of "CHR ''.''" t "[]" "[]" c] split_acc_last [of "CHR ''.''" c "[]" "[]"]
  by (simp add: str_split_def qualified_column_def at_index_def)

lemma set_join: "set (join sep xs) \<subseteq> set sep \<union> \<Union> (set ` set xs)"
  by (induction sep xs rule: join.induct) auto

lemma dot_star_id:
  "\<forall>c \<in> set s. c \<noteq> CHR 0x0A \<and> c \<noteq> CHR 0x0D \<and> c \<noteq> CHR 0xE2 \<Longrightarrow> dot_star s = s"
  by (induction s) (auto simp: at_line_terminator_def)

lemma prefix_append_short:
  assumes "prefix m (x @ y)" "length m \<le> length x"
  shows "prefix m x"
proof -
  from assms(1) obtain zs where "x @ y = m @ zs"
    by (auto simp: prefix_def)
  then have "take (length m) (x @ y) = m" by simp
  with assms(2) have "take (length m) x = m" by simp
  then show ?thesis by (metis take_is_prefix)
qed

lemma match_unique_skip:
  assumes "\<not> prefix ''UNIQUE constraint failed: '' (c # cs)"
  shows "match_unique (c # cs) = match_unique cs"
  by (subst match_unique.simps(2)) (rule if_not_P [OF assms])

lemma match_unique_leftmost:
  "\<not> str_includes (pre @ ''UNIQUE constraint failed:'') ''UNIQUE constraint failed: '' \<Longrightarrow>
     match_unique (pre @ ''UNIQUE constraint failed: '' @ body) = Some (dot_star body)"
proof (induction pre)
  case Nil
  then show ?case by simp
next
  case (Cons c cs)
  let ?m = "''UNIQUE constraint failed: ''"
  have no: "\<not> prefix ?m ((c # cs) @ ''UNIQUE constraint failed:'')"
    and rec: "\<not> str_includes (cs @ ''UNIQUE constraint failed:'') ?m"
    using Cons.prems by simp_all
  have "\<not> prefix ?m (((c # cs) @ ''UNIQUE constraint failed:'') @ '' '' @ body)"
    using no prefix_append_short [of ?m "(c # cs) @ ''UNIQUE constraint failed:''" "'' '' @ body"]
    by auto
  then have "\<not> prefix ?m (c # (cs @ ?m @ body))" by simp
  from match_unique_skip [OF this]
  have "match_unique ((c # cs) @ ?m @ body) = match_unique (cs @ ?m @ body)"
    by simp
  with Cons.IH [OF rec] show ?case by (simp only:)
qed

lemma word_char_plain:
  "isWordChar c \<Longrightarrow>
     c \<noteq> CHR '','' \<and> c \<noteq> CHR ''.'' \<and> c \<noteq> CHR '' '' \<and> c \<noteq> CHR 0x0A \<and> c \<noteq> CHR 0x0D \<and> c \<noteq> CHR 0xE2"
  by (auto simp: isWordChar_def)


declare lazy_until.simps [simp del]

lemma lazy_until_found: "lazy_until '' are'' ('' are'' @ post) = Some []"
  by (simp add: lazy_until.simps)

lemma lazy_until_plain:
  assumes "c \<noteq> CHR '' ''" "c \<noteq> CHR 0x0A" "c \<noteq> CHR 0x0D" "c \<noteq> CHR 0xE2"
  shows "lazy_until '' are'' (c # rest) = map_option ((#) c) (lazy_until '' are'' rest)"
proof -
  have "\<not> prefix '' are'' (c # rest)" using assms(1) by simp
  moreover have "\<not> at_line_terminator (c # rest)"
    using assms(2-4) by (simp add: at_line_terminator_def)
  ultimately show ?thesis
    by (subst lazy_until.simps(2)) (simp only: if_False)
qed

lemma lazy_until_identifier:
  "is_identifier w \<Longrightarrow>
     lazy_until '' are'' (w @ rest) = map_option (\<lambda>g. w @ g) (lazy_until '' are'' rest)"
proof (induction w)
  case Nil
  then show ?case by (simp add: option.map_ident)
next
  case (Cons c w)
  then have c: "isWordChar c" and w: "is_identifier w"
    by (simp_all add: is_identifier_def)
  have "lazy_until '' are'' (c # (w @ rest)) = map_option ((#) c) (lazy_until '' are'' (w @ rest))"
    using word_char_plain [OF c] by (intro lazy_until_plain) simp_all
  with Cons.IH [OF w] show ?case
    by (cases "lazy_until '' are'' rest") simp_all
qed

lemma no_are_prefix:
  assumes "is_identifier w" "\<not> prefix ''are'' w"
    "rest = [] \<or> hd rest = CHR '','' \<or> hd rest = CHR '' ''"
  shows "\<not> prefix ''are'' (w @ rest)"
proof
  assume p: "prefix ''are'' (w @ rest)"
  show False
  proof (cases "3 \<le> length w")
    case True
    with p assms(2) prefix_append_short [of "''are''" w rest] show False by simp
  next
    case False
    then consider "w = []" | a where "w = [a]" | a b where "w = [a, b]"
      by (cases w; cases "tl w"; cases "tl (tl w)") auto
    then show False
      using p assms(3) by cases (cases rest; auto)+
  qed
qed

lemma lazy_until_separator:
  assumes "is_identifier w" "\<not> prefix ''are'' w"
    "rest = [] \<or> hd rest = CHR '','' \<or> hd rest = CHR '' ''"
  shows "lazy_until '' are'' ('', '' @ w @ rest) =
     map_option (\<lambda>g. '', '' @ w @ g) (lazy_until '' are'' rest)"
proof -
  have comma: "lazy_until '' are'' (CHR '','' # CHR '' '' # w @ rest) =
      map_option ((#) CHR '','') (lazy_until '' are'' (CHR '' '' # w @ rest))"
    by (intro lazy_until_plain) simp_all
  have "\<not> prefix '' are'' (CHR '' '' # w @ rest)"
    using no_are_prefix [OF assms] by simp
  moreover have "\<not> at_line_terminator (CHR '' '' # w @ rest)"
    by (simp add: at_line_terminator_def)
  ultimately have space: "lazy_until '' are'' (CHR '' '' # w @ rest) =
      map_option ((#) CHR '' '') (lazy_until '' are'' (w @ rest))"
    by (subst lazy_until.simps(2)) (simp only: if_False)
  show ?thesis
    using comma space lazy_until_identifier [OF assms(1), of rest]
    by (cases "lazy_until '' are'' rest") simp_all
qed

lemma lazy_until_tail:
  "\<forall>w \<in> set ws. is_identifier w \<and> \<not> prefix ''are'' w \<Longrightarrow>
     lazy_until '' are'' (concat (map (\<lambda>w. '', '' @ w) ws) @ '' are'' @ post) =
       Some (concat (map (\<lambda>w. '', '' @ w) ws))"
proof (induction ws)
  case Nil
  then show ?case using lazy_until_found by simp
next
  case (Cons w ws)
  let ?rest = "concat (map (\<lambda>w. '', '' @ w) ws) @ '' are'' @ post"
  have hd: "?rest = [] \<or> hd ?rest = CHR '','' \<or> hd ?rest = CHR '' ''"
    by (cases ws) simp_all
  have "lazy_until '' are'' ('', '' @ w @ ?rest) =
      map_option (\<lambda>g. '', '' @ w @ g) (lazy_until '' are'' ?rest)"
    using Cons.prems hd by (intro lazy_until_separator) simp_all
  moreover have "lazy_until '' are'' ?rest = Some (concat (map (\<lambda>w. '', '' @ w) ws))"
    using Cons by simp
  ultimately show ?case by simp
qed

lemma join_concat: "join '', '' (x # ws) = x @ concat (map (\<lambda>w. '', '' @ w) ws)"
  by (induction ws arbitrary: x) simp_all

lemma lazy_until_columns:
  assumes "cols \<noteq> []" "\<forall>c \<in> set cols. is_identifier c \<and> \<not> prefix ''are'' c"
  shows "lazy_until '' are'' (join '', '' cols @ '' are'' @ post) = Some (join '', '' cols)"
proof -
  from assms(1) obtain x ws where cols: "cols = x # ws" by (cases cols) auto
  have "lazy_until '' are'' (x @ concat (map (\<lambda>w. '', '' @ w) ws) @ '' are'' @ post) =
      map_option (\<lambda>g. x @ g) (lazy_until '' are'' (concat (map (\<lambda>w. '', '' @ w) ws) @ '' are'' @ post))"
    using assms(2) cols by (intro lazy_until_identifier) simp
  moreover have "lazy_until '' are'' (concat (map (\<lambda>w. '', '' @ w) ws) @ '' are'' @ post) =
      Some (concat (map (\<lambda>w. '', '' @ w) ws))"
    using assms(2) cols by (intro lazy_until_tail) simp
  ultimately show ?thesis
    using cols by (simp add: join_concat)
qed

lemma match_columns_skip:
  assumes "\<not> prefix ''columns '' (c # cs)"
  shows "match_columns (c # cs) = match_columns cs"
  by (subst match_columns.simps(2)) (rule if_not_P [OF assms])

lemma match_columns_leftmost:
  assumes "lazy_until '' are'' rest = Some g"
  shows "\<not> str_includes (pre @ ''columns'') ''columns '' \<Longrightarrow>
     match_columns (pre @ ''columns '' @ rest) = Some g"
proof (induction pre)
  case Nil
  have "match_columns (CHR ''c'' # (''olumns '' @ rest)) = Some g"
    by (subst match_columns.simps(2)) (simp add: assms)
  then show ?case by simp
next
  case (Cons c cs)
  let ?m = "''columns ''"
  have no: "\<not> prefix ?m ((c # cs) @ ''columns'')"
    and rec: "\<not> str_includes (cs @ ''columns'') ?m"
    using Cons.prems by simp_all
  have "\<not> prefix ?m (((c # cs) @ ''columns'') @ '' '' @ rest)"
    using no prefix_append_short [of ?m "(c # cs) @ ''columns''" "'' '' @ rest"]
    by auto
  then have "\<not> prefix ?m (c # (cs @ ?m @ rest))" by simp
  from match_columns_skip [OF this]
  have "match_columns ((c # cs) @ ?m @ rest) = match_columns (cs @ ?m @ rest)"
    by simp
  with Cons.IH [OF rec] show ?case by (simp only:)
qed

lemma extractFields_older:
  assumes "cols \<noteq> []" "\<forall>c \<in> set cols. is_identifier c \<and> \<not> prefix ''are'' c"
    "\<not> str_includes (pre @ ''columns'') ''columns ''"
  shows "extractFields (pre @ ''columns '' @ join '', '' cols @ '' are'' @ post) = map Str cols"
proof -
  have "match_columns (pre @ ''columns '' @ join '', '' cols @ '' are'' @ post) =
      Some (join '', '' cols)"
    using lazy_until_columns [OF assms(1,2)] assms(3) by (intro match_columns_leftmost)
  moreover have "str_split '', '' (join '', '' cols) = cols"
    using assms(1,2) word_char_plain
    by (intro str_split_join) (auto simp: is_identifier_def)
  ultimately show ?thesis by (simp add: extractFields_def)
qed

lemma extractFields_newer:
  assumes "tcs \<noteq> []" "\<forall>tc \<in> set tcs. is_identifier (fst tc) \<and> is_identifier (snd tc)"
    "\<not> str_includes (pre @ ''UNIQUE constraint failed:'') ''UNIQUE constraint failed: ''"
    "match_columns (pre @ ''UNIQUE constraint failed: '' @ join '', '' (map qualified_column tcs)) = None"
  shows "extractFields (pre @ ''UNIQUE constraint failed: '' @ join '', '' (map qualified_column tcs)) =
     map (\<lambda>tc. Str (snd tc)) tcs"
proof -
  let ?body = "join '', '' (map qualified_column tcs)"
  have chars: "c \<noteq> CHR '','' \<and> c \<noteq> CHR 0x0A \<and> c \<noteq> CHR 0x0D \<and> c \<noteq> CHR 0xE2"
    if "tc \<in> set tcs" "c \<in> set (qualified_column tc)" for tc c
    using that assms(2) word_char_plain [of c]
    by (auto simp: qualified_column_def is_identifier_def)
  have "c = CHR '','' \<or> c = CHR '' '' \<or> (\<exists>tc \<in> set tcs. c \<in> set (qualified_column tc))"
    if "c \<in> set ?body" for c
    using that set_join [of "'', ''" "map qualified_column tcs"] by auto
  then have "\<forall>c \<in> set ?body. c \<noteq> CHR 0x0A \<and> c \<noteq> CHR 0x0D \<and> c \<noteq> CHR 0xE2"
    using chars by fastforce
  then have "dot_star ?body = ?body" by (rule dot_star_id)
  then have m: "match_unique (pre @ ''UNIQUE constraint failed: '' @ ?body) = Some ?body"
    using match_unique_leftmost [OF assms(3), of ?body] by simp
  have sp: "str_split '', '' ?body = map qualified_column tcs"
    using assms(1) chars by (intro str_split_join) auto
  have "at_index (str_split ''.'' (qualified_column tc)) 1 = Str (snd tc)" if "tc \<in> set tcs" for tc
    using that assms(2) word_char_plain field_of_qualified [of "fst tc" "snd tc"]
    by (auto simp: is_identifier_def)
  then have "map (\<lambda>p. at_index (str_split ''.'' p) 1) (map qualified_column tcs) =
      map (\<lambda>tc. Str (snd tc)) tcs"
    by simp
  with m sp assms(4) show ?thesis by (simp add: extractFields_def)
qed


text \<open>
  Claim C2. For every raw engine error the classifier returns one classified error that
  keeps the raw error as its cause. With a constraint-family code, a message that
  contains \<open>FOREIGN KEY constraint failed\<close> gives a foreign-key violation; any other
  message gives a uniqueness violation whose fields come from the message: from the
  older form \<open>columns X, Y are\<close> the listed names, and otherwise, when that form does
  not match, from the newer form \<open>UNIQUE constraint failed: table.col, table.col2\<close> the
  column of each qualified name. The code \<open>SQLITE_BUSY\<close> gives a timeout and every
  other error a generic database error.
\<close>

theorem formatError_classification:
  "cause (formatError q err) = err \<and>
   (code err \<in> Some ` set constraint_codes \<and>
    str_includes (message err) ''FOREIGN KEY constraint failed'' \<longrightarrow>
      formatError q err = ForeignKeyConstraintError err) \<and>
   (code err \<in> Some ` set constraint_codes \<and>
    \<not> str_includes (message err) ''FOREIGN KEY constraint failed'' \<longrightarrow>
      kind (formatError q err) = UniqueViolation \<and>
      fields_of (formatError q err) = extractFields (message err)) \<and>
   (\<forall>pre cols post.
      code err \<in> Some ` set constraint_codes \<and>
      \<not> str_includes (message err) ''FOREIGN KEY constraint failed'' \<and>
      message err = pre @ ''columns '' @ join '', '' cols @ '' are'' @ post \<and>
      cols \<noteq> [] \<and> (\<forall>c \<in> set cols. is_identifier c \<and> \<not> prefix ''are'' c) \<and>
      \<not> str_includes (pre @ ''columns'') ''columns '' \<longrightarrow>
      fields_of (formatError q err) = map Str cols) \<and>
   (\<forall>pre tcs.
      code err \<in> Some ` set constraint_codes \<and>
      \<not> str_includes (message err) ''FOREIGN KEY constraint failed'' \<and>
      match_columns (message err) = None \<and>
      message err = pre @ ''UNIQUE constraint failed: '' @ join '', '' (map qualified_column tcs) \<and>
      tcs \<noteq> [] \<and> (\<forall>tc \<in> set tcs. is_identifier (fst tc) \<and> is_identifier (snd tc)) \<and>
      \<not> str_includes (pre @ ''UNIQUE constraint failed:'') ''UNIQUE constraint failed: '' \<longrightarrow>
      fields_of (formatError q err) = map (\<lambda>tc. Str (snd tc)) tcs) \<and>
   (code err = Some ''SQLITE_BUSY'' \<longrightarrow> formatError q err = TimeoutError err) \<and>
   (code err \<notin> Some ` set constraint_codes \<and> code err \<noteq> Some ''SQLITE_BUSY'' \<longrightarrow>
      formatError q err = DatabaseError err)"
proof -
  have busy: "Some ''SQLITE_BUSY'' \<notin> Some ` set constraint_codes"
    by (simp add: constraint_codes_def)
  have c1: "cause (formatError q err) = err"
    by (simp add: formatError_def Let_def)
  have c2: "formatError q err = ForeignKeyConstraintError err"
    if "code err \<in> Some ` set constraint_codes"
      "str_includes (message err) ''FOREIGN KEY constraint failed''"
    using that by (simp add: formatError_def)
  have c3: "kind (formatError q err) = UniqueViolation \<and>
      fields_of (formatError q err) = extractFields (message err)"
    if "code err \<in> Some ` set constraint_codes"
      "\<not> str_includes (message err) ''FOREIGN KEY constraint failed''"
    using that by (simp add: formatError_def Let_def)
  have c4: "fields_of (formatError q err) = map Str cols"
    if "code err \<in> Some ` set constraint_codes"
      "\<not> str_includes (message err) ''FOREIGN KEY constraint failed''"
      "message err = pre @ ''columns '' @ join '', '' cols @ '' are'' @ post"
      "cols \<noteq> []" "\<forall>c \<in> set cols. is_identifier c \<and> \<not> prefix ''are'' c"
      "\<not> str_includes (pre @ ''columns'') ''columns ''" for pre cols post
    using c3 [OF that(1,2)] extractFields_older [OF that(4,5,6), of post] that(3)
    by (simp only:)
  have c5: "fields_of (formatError q err) = map (\<lambda>tc. Str (snd tc)) tcs"
    if "code err \<in> Some ` set constraint_codes"
      "\<not> str_includes (message err) ''FOREIGN KEY constraint failed''"
      "match_columns (message err) = None"
      "message err = pre @ ''UNIQUE constraint failed: '' @ join '', '' (map qualified_column tcs)"
      "tcs \<noteq> []" "\<forall>tc \<in> set tcs. is_identifier (fst tc) \<and> is_identifier (snd tc)"
      "\<not> str_includes (pre @ ''UNIQUE constraint failed:'') ''UNIQUE constraint failed: ''"
    for pre tcs
  proof -
    have "extractFields (message err) = map (\<lambda>tc. Str (snd tc)) tcs"
      unfolding that(4) using that(3) unfolding that(4)
      by (intro extractFields_newer [OF that(5,6,7)])
    with c3 [OF that(1,2)] show ?thesis by (simp only:)
  qed
  have c6: "formatError q err = TimeoutError err" if "code err = Some ''SQLITE_BUSY''"
    using that busy by (simp add: formatError_def)
  have c7: "formatError q err = DatabaseError err"
    if "code err \<notin> Some ` set constraint_codes" "code err \<noteq> Some ''SQLITE_BUSY''"
    using that by (simp add: formatError_def)
  show ?thesis
    using c1 c2 c3 c4 c5 c6 c7 by blast
qed

text \<open>The scenario of the claim: two qualified columns of the table \<open>users\<close>.\<close>

theorem formatError_classification_witness:
  "kind (formatError example_query
       \<lparr>code = Some ''SQLITE_CONSTRAINT_UNIQUE'',
        message = ''UNIQUE constraint failed: users.email, users.username'',
        err_sql = None\<rparr>) = UniqueViolation \<and>
   fields_of (formatError example_query
       \<lparr>code = Some ''SQLITE_CONSTRAINT_UNIQUE'',
        message = ''UNIQUE constraint failed: users.email, users.username'',
        err_sql = None\<rparr>) = [Str ''email'', Str ''username'']"
proof -
  let ?err = "\<lparr>code = Some ''SQLITE_CONSTRAINT_UNIQUE'',
        message = ''UNIQUE constraint failed: users.email, users.username'',
        err_sql = None\<rparr>"
  let ?tcs = "[(''users'', ''email''), (''users'', ''username'')]"
  have h1: "code ?err \<in> Some ` set constraint_codes"
    by (simp add: constraint_codes_def)
  have h2: "\<not> str_includes (message ?err) ''FOREIGN KEY constraint failed''"
    by simp
  have h3: "match_columns (message ?err) = None"
    by simp
  have h4: "message ?err = [] @ ''UNIQUE constraint failed: '' @ join '', '' (map qualified_column ?tcs)"
    by (simp add: qualified_column_def)
  have h5: "?tcs \<noteq> []" by simp
  have h6: "\<forall>tc \<in> set ?tcs. is_identifier (fst tc) \<and> is_identifier (snd tc)"
    by (simp add: is_identifier_def isWordChar_def)
  have h7: "\<not> str_includes ([] @ ''UNIQUE constraint failed:'') ''UNIQUE constraint failed: ''"
    by simp
  note all = formatError_classification [of example_query ?err]
  from all h1 h2 have "kind (formatError example_query ?err) = UniqueViolation"
    by blast
  moreover from all [THEN conjunct2, THEN conjunct2, THEN conjunct2, THEN conjunct2,
      THEN conjunct1, rule_format, of "[]" ?tcs] h1 h2 h3 h4 h5 h6 h7
  have "fields_of (formatError example_query ?err) = map (\<lambda>tc. Str (snd tc)) ?tcs"
    by blast
  ultimately show ?thesis by simp
qed

section \<open>Properties of the execution-mode selector\<close>

lemma lower_create: "toLowerCase ''CREATE TEMPORARY TABLE'' = ''create temporary table''"
  by (simp add: toLowerCase_def lower_char_def)

text \<open>
  Claim C4, amended. The selector chooses rowset mode for Insert, Update, Upsert and
  BulkUpdate exactly when the caller requested row-returning output, and rowcount mode
  otherwise; rowcount mode for every Delete; and for Select, ShowOrDescribe,
  ShowConstraints and Raw it chooses rowset mode unless the SQL text contains
  \<open>create temporary table\<close> in any letter case, in which case it chooses rowcount mode.
  A classification is one predicate holding with none of those tested before it.
\<close>

theorem getDatabaseMethod_selection:
  "(isInsertQuery q \<or> isUpdateQuery q \<or> isUpsertQuery q \<or> isBulkUpdateQuery q \<longrightarrow>
      getDatabaseMethod q = (if returning (options q) then MethodAll else MethodRun)) \<and>
   (isDeleteQuery q \<and>
    \<not> (isInsertQuery q \<or> isUpdateQuery q \<or> isUpsertQuery q \<or> isBulkUpdateQuery q) \<longrightarrow>
      getDatabaseMethod q = MethodRun) \<and>
   ((isSelectQuery q \<or> isShowOrDescribeQuery q \<or> isShowConstraintsQuery q \<or> isRawQuery q) \<and>
    \<not> (isInsertQuery q \<or> isUpdateQuery q \<or> isUpsertQuery q \<or> isBulkUpdateQuery q) \<and>
    \<not> isDeleteQuery q \<longrightarrow>
      getDatabaseMethod q =
        (if str_includes (toLowerCase (sql q)) ''create temporary table'' then MethodRun
         else MethodAll))"
  by (auto simp: getDatabaseMethod_def lower_create)

text \<open>An insert that asks for its rows, and a plain select.\<close>

theorem getDatabaseMethod_selection_witness:
  "getDatabaseMethod
     (example_query\<lparr>isInsertQuery := True, options := \<lparr>returning = True, plain = False\<rparr>\<rparr>) = MethodAll \<and>
   getDatabaseMethod (example_query\<lparr>isSelectQuery := True\<rparr>) = MethodAll"
proof -
  let ?ins = "example_query\<lparr>isInsertQuery := True, options := \<lparr>returning = True, plain = False\<rparr>\<rparr>"
  let ?sel = "example_query\<lparr>isSelectQuery := True\<rparr>"
  have "isInsertQuery ?ins" "returning (options ?ins)" by simp_all
  with getDatabaseMethod_selection [of ?ins] have a: "getDatabaseMethod ?ins = MethodAll"
    by simp
  have "isSelectQuery ?sel"
    "\<not> (isInsertQuery ?sel \<or> isUpdateQuery ?sel \<or> isUpsertQuery ?sel \<or> isBulkUpdateQuery ?sel)"
    "\<not> isDeleteQuery ?sel"
    "\<not> str_includes (toLowerCase (sql ?sel)) ''create temporary table''"
    by (simp_all add: example_query_def toLowerCase_def lower_char_def)
  with getDatabaseMethod_selection [of ?sel] have b: "getDatabaseMethod ?sel = MethodAll"
    by simp
  from a b show ?thesis by simp
qed

text \<open>
  Claim C4 as stated fails: a Raw statement that creates a temporary table, and a Select
  whose text merely quotes those words, are run in rowcount mode.
\<close>

theorem getDatabaseMethod_rowset_counterexample:
  "isRawQuery (example_query\<lparr>sql := ''CREATE TEMPORARY TABLE t (a)'', isRawQuery := True\<rparr>) \<and>
   getDatabaseMethod (example_query\<lparr>sql := ''CREATE TEMPORARY TABLE t (a)'', isRawQuery := True\<rparr>)
     = MethodRun \<and>
   isSelectQuery (example_query\<lparr>sql := ''SELECT 'create temporary table' AS words'', isSelectQuery := True\<rparr>) \<and>
   getDatabaseMethod
     (example_query\<lparr>sql := ''SELECT 'create temporary table' AS words'', isSelectQuery := True\<rparr>)
     = MethodRun"
  by (simp add: getDatabaseMethod_def example_query_def toLowerCase_def lower_char_def)

section \<open>Properties of the result shaper\<close>

text \<open>
  Claim C3. For a plain insert (not an upsert) with an attached record instance: with no
  returned row the shaper raises \<open>EmptyResultError\<close>; with at least one row it raises
  nothing and calls \<open>set\<close> on the instance once for each column of the first row, in
  order, with the attribute name of the column (the column name when the model has no
  such column), the parsed value, and the options \<open>raw\<close> and \<open>comesFromDatabase\<close>. The
  query carries the model of its instance.
\<close>

theorem insert_result_shaping:
  assumes "isInsertQuery q" "\<not> isUpsertQuery q"
    and "this_instance q = Some inst" "dataValues inst \<noteq> None"
  shows "(length rows = 0 \<longrightarrow> handleQueryResponse q metaData rows = Inl EmptyResultError) \<and>
    (\<forall>first rest m.
       rows = first # rest \<and> model q = Some m \<longrightarrow>
       handleQueryResponse q metaData rows =
         Inr (MutationResult
           (TheInstance
             (inst\<lparr>setCalls := setCalls inst @
                map (\<lambda>col.
                      \<lparr>set_key = (case columns m col of
                                    Some a \<Rightarrow> attributeName a
                                  | None \<Rightarrow> col),
                       set_value = parseDatabaseValue q (getProp first col)
                                     (map_option column_type (columns m col)),
                       set_raw = True,
                       set_comesFromDatabase = True\<rparr>)
                  (keys first)\<rparr>))
           (if returning (options q) then int (length rows) else changes metaData)))"
proof -
  have empty: "handleQueryResponse q metaData rows = Inl EmptyResultError" if "length rows = 0"
    using that assms by (auto simp: handleQueryResponse_def populateInstance_def)
  have filled: "handleQueryResponse q metaData rows =
         Inr (MutationResult
           (TheInstance
             (inst\<lparr>setCalls := setCalls inst @
                map (\<lambda>col.
                      \<lparr>set_key = (case columns m col of
                                    Some a \<Rightarrow> attributeName a
                                  | None \<Rightarrow> col),
                       set_value = parseDatabaseValue q (getProp first col)
                                     (map_option column_type (columns m col)),
                       set_raw = True,
                       set_comesFromDatabase = True\<rparr>)
                  (keys first)\<rparr>))
           (if returning (options q) then int (length rows) else changes metaData))"
    if "rows = first # rest" "model q = Some m" for first rest m
  proof -
    have "applyRow q inst first =
        Inr (inst\<lparr>setCalls := setCalls inst @ map (setCallFor q m first) (keys first)\<rparr>)"
      using that(2) by (simp add: applyRow_def)
    then have "populateInstance q rows =
        Inr (Some (inst\<lparr>setCalls := setCalls inst @ map (setCallFor q m first) (keys first)\<rparr>))"
      using that(1) assms by (auto simp: populateInstance_def)
    moreover have "setCallFor q m first = (\<lambda>col.
                      \<lparr>set_key = (case columns m col of
                                    Some a \<Rightarrow> attributeName a
                                  | None \<Rightarrow> col),
                       set_value = parseDatabaseValue q (getProp first col)
                                     (map_option column_type (columns m col)),
                       set_raw = True,
                       set_comesFromDatabase = True\<rparr>)"
      by (rule ext) (simp add: setCallFor_def Let_def)
    ultimately show ?thesis
      using assms(1,2) by (simp add: handleQueryResponse_def mutationSubject_def)
  qed
  from empty filled show ?thesis by blast
qed

text \<open>An insert into \<open>users\<close>: no row, and one row with a column the model does not know.\<close>

theorem insert_result_shaping_witness:
  "handleQueryResponse insert_query \<lparr>lastID = 0, changes = 0\<rparr> [] = Inl EmptyResultError \<and>
   handleQueryResponse insert_query \<lparr>lastID = 0, changes = 0\<rparr>
       [[(''id'', Num 7), (''user_name'', Str ''ann''), (''rowid'', Num 7)]] =
     Inr (MutationResult
       (TheInstance
         \<lparr>dataValues = Some [(''userName'', Str ''ann'')],
          setCalls =
            [\<lparr>set_key = ''id'', set_value = Num 7, set_raw = True, set_comesFromDatabase = True\<rparr>,
             \<lparr>set_key = ''userName'', set_value = Str ''ann'', set_raw = True,
              set_comesFromDatabase = True\<rparr>,
             \<lparr>set_key = ''rowid'', set_value = Num 7, set_raw = True,
              set_comesFromDatabase = True\<rparr>]\<rparr>)
       1)"
proof -
  let ?inst = "\<lparr>dataValues = Some [(''userName'', Str ''ann'')], setCalls = []\<rparr>"
  let ?row = "[(''id'', Num 7), (''user_name'', Str ''ann''), (''rowid'', Num 7)]"
  let ?md = "\<lparr>lastID = 0, changes = 0\<rparr>"
  have h: "isInsertQuery insert_query" "\<not> isUpsertQuery insert_query"
    "this_instance insert_query = Some ?inst" "dataValues ?inst \<noteq> None"
    by (simp_all add: insert_query_def example_query_def)
  have m: "model insert_query = Some users_model"
    by (simp add: insert_query_def)
  have "handleQueryResponse insert_query ?md [] = Inl EmptyResultError"
    using insert_result_shaping [OF h, of "[]" ?md] by simp
  moreover have "handleQueryResponse insert_query ?md [?row] = Inr (MutationResult
       (TheInstance
         \<lparr>dataValues = Some [(''userName'', Str ''ann'')],
          setCalls =
            [\<lparr>set_key = ''id'', set_value = Num 7, set_raw = True, set_comesFromDatabase = True\<rparr>,
             \<lparr>set_key = ''userName'', set_value = Str ''ann'', set_raw = True,
              set_comesFromDatabase = True\<rparr>,
             \<lparr>set_key = ''rowid'', set_value = Num 7, set_raw = True,
              set_comesFromDatabase = True\<rparr>]\<rparr>)
       1)"
    using insert_result_shaping [OF h, of "[?row]" ?md, THEN conjunct2, rule_format,
        of ?row "[]" users_model] m
    by (simp add: insert_query_def example_query_def users_model_def keys_def getProp_def)
  ultimately show ?thesis by simp
qed

lemma tableInfo_snoc:
  "tableInfo (rows @ [r]) = (tableInfo rows)(columnName r \<mapsto> tableInfoColumn r)"
  by (simp add: tableInfo_def columnName_def)

lemma tableInfo_distinct:
  "distinct (map columnName rows) \<Longrightarrow> r \<in> set rows \<Longrightarrow>
     tableInfo rows (columnName r) = Some (tableInfoColumn r)"
proof (induction rows rule: rev_induct)
  case Nil
  then show ?case by simp
next
  case (snoc x xs)
  show ?case
  proof (cases "r = x")
    case True
    then show ?thesis by (simp add: tableInfo_snoc)
  next
    case False
    with snoc.prems have "r \<in> set xs" "columnName x \<noteq> columnName r" "distinct (map columnName xs)"
      by auto
    with snoc.IH show ?thesis by (simp add: tableInfo_snoc)
  qed
qed

lemma handleQueryResponse_tableInfo:
  "reachesTableInfo q \<Longrightarrow> handleQueryResponse q metaData rows = Inr (TableInfo (tableInfo rows))"
  by (simp add: reachesTableInfo_def handleQueryResponse_def)

lemma tableInfoColumn_default:
  "defaultValue (tableInfoColumn r) =
     (let dflt = getProp r ''dflt_value'';
          declared = (if dflt = Null then Undefined else if dflt = Str ''NULL'' then Null else dflt);
          booleaned = (if getProp r ''type'' = Str ''TINYINT(1)''
                       then booleanTable (js_toString declared) else declared)
      in case booleaned of Str t \<Rightarrow> Str (filter (\<lambda>c. c \<noteq> CHR 0x27) t) | _ \<Rightarrow> booleaned)"
  unfolding tableInfoColumn_def removeAll_char_def Let_def by simp

lemma filter_quoted:
  "CHR 0x27 \<notin> set body \<Longrightarrow> filter (\<lambda>c. c \<noteq> CHR 0x27) (CHR 0x27 # body @ [CHR 0x27]) = body"
  by (induction body) auto

text \<open>
  Claim C7, amended. For every row of a table-information result whose column name occurs
  once, the shaped entry keeps the type, allows null exactly when \<open>notnull\<close> is 0 and is
  a primary key exactly when \<open>pk\<close> is not 0. A null raw default becomes no default
  (undefined). For a column whose type is not \<open>TINYINT(1)\<close>, the text \<open>NULL\<close> becomes
  an explicit null default, and any other default text loses every single-quote
  character, so that a quoted literal without inner quotes loses its surrounding
  quotes. For a column of type \<open>TINYINT(1)\<close>, the defaults \<open>0\<close> and \<open>1\<close> become
  false and true.
\<close>

theorem table_info_shaping:
  assumes "reachesTableInfo q" "distinct (map columnName rows)" "r \<in> set rows"
  shows "\<exists>info.
    columnInfoOf (handleQueryResponse q metaData rows) (columnName r) = Some info \<and>
    info_type info = getProp r ''type'' \<and>
    allowNull info = (getProp r ''notnull'' = Num 0) \<and>
    primaryKey info = (getProp r ''pk'' \<noteq> Num 0) \<and>
    (getProp r ''dflt_value'' = Null \<longrightarrow> defaultValue info = Undefined) \<and>
    (getProp r ''type'' \<noteq> Str ''TINYINT(1)'' \<and> getProp r ''dflt_value'' = Str ''NULL'' \<longrightarrow>
       defaultValue info = Null) \<and>
    (\<forall>t. getProp r ''type'' \<noteq> Str ''TINYINT(1)'' \<and> getProp r ''dflt_value'' = Str t \<and>
         t \<noteq> ''NULL'' \<longrightarrow>
       defaultValue info = Str (filter (\<lambda>c. c \<noteq> CHR 0x27) t)) \<and>
    (\<forall>body. getProp r ''type'' \<noteq> Str ''TINYINT(1)'' \<and>
         getProp r ''dflt_value'' = Str (CHR 0x27 # body @ [CHR 0x27]) \<and> CHR 0x27 \<notin> set body \<longrightarrow>
       defaultValue info = Str body) \<and>
    (getProp r ''type'' = Str ''TINYINT(1)'' \<and> getProp r ''dflt_value'' = Str ''0'' \<longrightarrow>
       defaultValue info = Bool False) \<and>
    (getProp r ''type'' = Str ''TINYINT(1)'' \<and> getProp r ''dflt_value'' = Str ''1'' \<longrightarrow>
       defaultValue info = Bool True)"
proof -
  let ?info = "tableInfoColumn r"
  have found: "columnInfoOf (handleQueryResponse q metaData rows) (columnName r) = Some ?info"
    using handleQueryResponse_tableInfo [OF assms(1)] tableInfo_distinct [OF assms(2,3)]
    by (simp add: columnInfoOf_def)
  have plain: "info_type ?info = getProp r ''type''"
    "allowNull ?info = (getProp r ''notnull'' = Num 0)"
    "primaryKey ?info = (getProp r ''pk'' \<noteq> Num 0)"
    by (simp_all add: tableInfoColumn_def Let_def)
  have absent: "defaultValue ?info = Undefined" if "getProp r ''dflt_value'' = Null"
    using that
    by (simp add: tableInfoColumn_default booleanTable_def object_prototype_members_def)
  have nul: "defaultValue ?info = Null"
    if "getProp r ''type'' \<noteq> Str ''TINYINT(1)''" "getProp r ''dflt_value'' = Str ''NULL''"
    using that by (simp add: tableInfoColumn_default)
  have other: "defaultValue ?info = Str (filter (\<lambda>c. c \<noteq> CHR 0x27) t)"
    if "getProp r ''type'' \<noteq> Str ''TINYINT(1)''" "getProp r ''dflt_value'' = Str t" "t \<noteq> ''NULL''"
    for t
    using that by (simp add: tableInfoColumn_default)
  have quoted: "defaultValue ?info = Str body"
    if "getProp r ''type'' \<noteq> Str ''TINYINT(1)''"
      "getProp r ''dflt_value'' = Str (CHR 0x27 # body @ [CHR 0x27])" "CHR 0x27 \<notin> set body"
    for body
    using other [OF that(1,2)] filter_quoted [OF that(3)] by simp
  have zero: "defaultValue ?info = Bool False"
    if "getProp r ''type'' = Str ''TINYINT(1)''" "getProp r ''dflt_value'' = Str ''0''"
    using that by (simp add: tableInfoColumn_default booleanTable_def)
  have one: "defaultValue ?info = Bool True"
    if "getProp r ''type'' = Str ''TINYINT(1)''" "getProp r ''dflt_value'' = Str ''1''"
    using that by (simp add: tableInfoColumn_default booleanTable_def)
  show ?thesis
    using found plain absent nul other quoted zero one by blast
qed

text \<open>The scenario of the claim: the boolean column \<open>active\<close> with default \<open>1\<close>.\<close>

theorem table_info_shaping_witness:
  "columnInfoOf (handleQueryResponse table_info_query \<lparr>lastID = 0, changes = 0\<rparr> [active_row])
     ''active'' =
   Some \<lparr>info_type = Str ''TINYINT(1)'', allowNull = True, defaultValue = Bool True,
         primaryKey = False\<rparr>"
proof -
  have h: "reachesTableInfo table_info_query" "distinct (map columnName [active_row])"
    "active_row \<in> set [active_row]"
    by (simp_all add: reachesTableInfo_def table_info_query_def example_query_def)
  have p: "getProp active_row ''type'' = Str ''TINYINT(1)''"
    "getProp active_row ''dflt_value'' = Str ''1''"
    "getProp active_row ''notnull'' = Num 0" "getProp active_row ''pk'' = Num 0"
    "columnName active_row = ''active''"
    by (simp_all add: active_row_def getProp_def columnName_def)
  from table_info_shaping [OF h, of "\<lparr>lastID = 0, changes = 0\<rparr>"] obtain info where
    "columnInfoOf (handleQueryResponse table_info_query \<lparr>lastID = 0, changes = 0\<rparr> [active_row])
       (columnName active_row) = Some info"
    "info_type info = getProp active_row ''type''"
    "allowNull info = (getProp active_row ''notnull'' = Num 0)"
    "primaryKey info = (getProp active_row ''pk'' \<noteq> Num 0)"
    "getProp active_row ''type'' = Str ''TINYINT(1)'' \<and> getProp active_row ''dflt_value'' = Str ''1'' \<longrightarrow>
       defaultValue info = Bool True"
    by blast
  then show ?thesis
    unfolding p by (cases info) simp
qed

text \<open>
  Claim C7 as stated fails. A \<open>TINYINT(1)\<close> column declared \<open>DEFAULT NULL\<close> is shaped
  like one with no default at all, and the default \<open>'it''s'\<close> of a text column loses
  its inner quotes as well as the surrounding ones.
\<close>

theorem table_info_shaping_counterexample:
  "columnInfoOf (handleQueryResponse table_info_query \<lparr>lastID = 0, changes = 0\<rparr>
      [[(''name'', Str ''flag''), (''type'', Str ''TINYINT(1)''), (''notnull'', Num 0),
        (''dflt_value'', Str ''NULL''), (''pk'', Num 0)]]) ''flag'' =
     Some \<lparr>info_type = Str ''TINYINT(1)'', allowNull = True, defaultValue = Undefined,
           primaryKey = False\<rparr> \<and>
   columnInfoOf (handleQueryResponse table_info_query \<lparr>lastID = 0, changes = 0\<rparr>
      [[(''name'', Str ''flag''), (''type'', Str ''TINYINT(1)''), (''notnull'', Num 0),
        (''dflt_value'', Null), (''pk'', Num 0)]]) ''flag'' =
     Some \<lparr>info_type = Str ''TINYINT(1)'', allowNull = True, defaultValue = Undefined,
           primaryKey = False\<rparr> \<and>
   columnInfoOf (handleQueryResponse table_info_query \<lparr>lastID = 0, changes = 0\<rparr>
      [[(''name'', Str ''title''), (''type'', Str ''VARCHAR(255)''), (''notnull'', Num 1),
        (''dflt_value'', Str (CHR 0x27 # ''it'' @ [CHR 0x27, CHR 0x27] @ ''s'' @ [CHR 0x27])),
        (''pk'', Num 0)]]) ''title'' =
     Some \<lparr>info_type = Str ''VARCHAR(255)'', allowNull = False, defaultValue = Str ''its'',
           primaryKey = False\<rparr>"
  by (simp add: handleQueryResponse_def table_info_query_def example_query_def columnInfoOf_def
      tableInfo_def tableInfoColumn_def getProp_def booleanTable_def
      object_prototype_members_def removeAll_char_def)

subsection \<open>Indexes\<close>

lemma length_array_set: "length (array_set xs i v) = max (length xs) (Suc i)"
  by (auto simp: array_set_def)

lemma array_set_same: "array_set xs i v ! i = Some v"
  by (auto simp: array_set_def nth_append)

lemma array_set_other: "j \<noteq> i \<Longrightarrow> j < length xs \<Longrightarrow> array_set xs i v ! j = xs ! j"
  by (auto simp: array_set_def nth_append)

lemma attachFields_snoc:
  "attachFields (cols @ [c]) =
     (case seqnoOf c of
        Some i \<Rightarrow> array_set (attachFields cols) i (fieldOf c)
      | None \<Rightarrow> attachFields cols)"
  unfolding attachFields_def by simp

lemma attachFields_placed:
  assumes "\<forall>c \<in> set cols. seqnoOf c \<noteq> None" "distinct (map seqnoOf cols)"
  shows "length (attachFields cols) =
           (if cols = [] then 0 else Suc (Max ((the \<circ> seqnoOf) ` set cols))) \<and>
         (\<forall>c \<in> set cols. the (seqnoOf c) < length (attachFields cols) \<and>
            attachFields cols ! the (seqnoOf c) = Some (fieldOf c))"
  using assms
proof (induction cols rule: rev_induct)
  case Nil
  then show ?case by (simp add: attachFields_def)
next
  case (snoc x xs)
  from snoc.prems obtain k where k: "seqnoOf x = Some k" by auto
  from snoc.prems have xs: "\<forall>c \<in> set xs. seqnoOf c \<noteq> None" "distinct (map seqnoOf xs)"
    by simp_all
  note ih = snoc.IH [OF xs]
  let ?old = "attachFields xs"
  have new: "attachFields (xs @ [x]) = array_set ?old k (fieldOf x)"
    by (simp add: attachFields_snoc k)
  have fresh: "the (seqnoOf c) \<noteq> k" if "c \<in> set xs" for c
  proof -
    from snoc.prems(2) have "seqnoOf x \<notin> seqnoOf ` set xs" by simp
    with that have "seqnoOf c \<noteq> seqnoOf x" by (metis imageI)
    moreover from that xs(1) obtain j where "seqnoOf c = Some j" by auto
    ultimately show ?thesis using k by simp
  qed
  have len: "length (attachFields (xs @ [x])) = Suc (Max ((the \<circ> seqnoOf) ` set (xs @ [x])))"
  proof (cases "xs = []")
    case True
    then show ?thesis by (simp add: new length_array_set attachFields_def k)
  next
    case False
    with ih have "length ?old = Suc (Max ((the \<circ> seqnoOf) ` set xs))" by simp
    moreover have "Max ((the \<circ> seqnoOf) ` set (xs @ [x])) = max k (Max ((the \<circ> seqnoOf) ` set xs))"
      using False by (simp add: k)
    ultimately show ?thesis by (simp add: new length_array_set max.commute)
  qed
  have elems: "the (seqnoOf c) < length (attachFields (xs @ [x])) \<and>
      attachFields (xs @ [x]) ! the (seqnoOf c) = Some (fieldOf c)" if "c \<in> set (xs @ [x])" for c
  proof (cases "c = x")
    case True
    then show ?thesis by (simp add: new k array_set_same length_array_set)
  next
    case False
    with that have c: "c \<in> set xs" by simp
    with ih have "the (seqnoOf c) < length ?old" "?old ! the (seqnoOf c) = Some (fieldOf c)"
      by blast+
    with fresh [OF c] show ?thesis
      by (simp add: new array_set_other length_array_set)
  qed
  from len elems show ?case by simp
qed

lemma attachFields_ordered:
  assumes "\<forall>c \<in> set cols. seqnoOf c \<noteq> None" "distinct (map seqnoOf cols)"
    "(the \<circ> seqnoOf) ` set cols = {..<length cols}"
  shows "length (attachFields cols) = length cols \<and>
         (\<forall>c \<in> set cols. attachFields cols ! the (seqnoOf c) = Some (fieldOf c))"
proof (cases "cols = []")
  case True
  then show ?thesis by (simp add: attachFields_def)
next
  case False
  then have "Max {..<length cols} = length cols - 1"
    by (intro Max_eqI) auto
  with False attachFields_placed [OF assms(1,2)] assms(3) show ?thesis by simp
qed

lemma promise_all_success: "promise_all (map (\<lambda>x. Inr (f x)) xs) = Inr (map f xs)"
  by (induction xs) simp_all

lemma handleShowIndexesQuery_success:
  assumes "\<forall>item \<in> set data. \<exists>cols. runNested q (indexInfoSql item) = Inr cols"
  shows "handleShowIndexesQuery q data =
     (Inr (map (\<lambda>item.
            \<lparr>item_row = item,
             item_fields = attachFields (projr (runNested q (indexInfoSql item))),
             item_primary = False,
             item_unique = truthy (getProp item ''unique''),
             item_constraintName = getProp item ''name''\<rparr>) (rev data)),
      map indexInfoSql (rev data))"
proof -
  define shaped where "shaped = (\<lambda>item.
            \<lparr>item_row = item,
             item_fields = attachFields (projr (runNested q (indexInfoSql item))),
             item_primary = False,
             item_unique = truthy (getProp item ''unique''),
             item_constraintName = getProp item ''name''\<rparr>)"
  have one: "shapeIndex q item = (Inr (shaped item), indexInfoSql item)"
    if "item \<in> set data" for item
    using that assms by (auto simp: shapeIndex_def shaped_def)
  have eq: "map (shapeIndex q) (rev data) =
      map (\<lambda>item. (Inr (shaped item), indexInfoSql item)) (rev data)"
    by (simp add: one)
  have "handleShowIndexesQuery q data =
      (Inr (map shaped (rev data)), map indexInfoSql (rev data))"
    unfolding handleShowIndexesQuery_def Let_def eq
    by (simp add: comp_def promise_all_success)
  then show ?thesis by (simp add: shaped_def)
qed


text \<open>
  Claim C8. For every show-indexes result sequence whose follow-up calls succeed, the
  shaper issues one \<open>PRAGMA INDEX_INFO\<close> call for each index, in the reverse of the
  engine's order, and returns the indexes in that reversed order. On each index the
  primary flag is false, the unique flag is the truth value of the raw flag, the
  constraint name is the index name, and the field list is built from the columns the
  follow-up call reports: when their sequence numbers are the positions \<open>0\<close> to
  \<open>n - 1\<close>, each once, the list has \<open>n\<close> fields and the field at each sequence number
  is that column.
\<close>

theorem show_indexes_shaping:
  assumes "\<forall>item \<in> set data. \<exists>cols. runNested q (indexInfoSql item) = Inr cols"
  shows "\<exists>items.
    handleShowIndexesQuery q data =
      (Inr items,
       map (\<lambda>item. ''PRAGMA INDEX_INFO(`'' @ js_toString (getProp item ''name'') @ ''`)'')
         (rev data)) \<and>
    map item_row items = rev data \<and>
    (\<forall>it \<in> set items.
       item_primary it = False \<and>
       item_unique it = truthy (getProp (item_row it) ''unique'') \<and>
       item_constraintName it = getProp (item_row it) ''name'' \<and>
       (\<exists>cols.
          runNested q (indexInfoSql (item_row it)) = Inr cols \<and>
          item_fields it = attachFields cols \<and>
          ((\<forall>c \<in> set cols. seqnoOf c \<noteq> None) \<and> distinct (map seqnoOf cols) \<and>
           (the \<circ> seqnoOf) ` set cols = {..<length cols} \<longrightarrow>
             length (item_fields it) = length cols \<and>
             (\<forall>c \<in> set cols.
                item_fields it ! the (seqnoOf c) =
                  Some \<lparr>attribute = getProp c ''name'', field_length = Undefined,
                        field_order = Undefined\<rparr>))))"
proof -
  define shaped where "shaped = (\<lambda>item.
            \<lparr>item_row = item,
             item_fields = attachFields (projr (runNested q (indexInfoSql item))),
             item_primary = False,
             item_unique = truthy (getProp item ''unique''),
             item_constraintName = getProp item ''name''\<rparr>)"
  let ?items = "map shaped (rev data)"
  have run: "handleShowIndexesQuery q data =
      (Inr ?items,
       map (\<lambda>item. ''PRAGMA INDEX_INFO(`'' @ js_toString (getProp item ''name'') @ ''`)'')
         (rev data))"
    using handleShowIndexesQuery_success [OF assms]
    by (simp add: shaped_def indexInfoSql_def)
  have rows: "map item_row ?items = rev data"
    by (simp add: shaped_def comp_def)
  have each: "item_primary it = False \<and>
       item_unique it = truthy (getProp (item_row it) ''unique'') \<and>
       item_constraintName it = getProp (item_row it) ''name'' \<and>
       (\<exists>cols.
          runNested q (indexInfoSql (item_row it)) = Inr cols \<and>
          item_fields it = attachFields cols \<and>
          ((\<forall>c \<in> set cols. seqnoOf c \<noteq> None) \<and> distinct (map seqnoOf cols) \<and>
           (the \<circ> seqnoOf) ` set cols = {..<length cols} \<longrightarrow>
             length (item_fields it) = length cols \<and>
             (\<forall>c \<in> set cols.
                item_fields it ! the (seqnoOf c) =
                  Some \<lparr>attribute = getProp c ''name'', field_length = Undefined,
                        field_order = Undefined\<rparr>)))"
    if "it \<in> set ?items" for it
  proof -
    from that obtain item where item: "item \<in> set data" and it: "it = shaped item"
      by auto
    from assms item obtain cols where cols: "runNested q (indexInfoSql item) = Inr cols"
      by blast
    have fields: "item_fields it = attachFields cols"
      by (simp add: it shaped_def cols)
    have "length (attachFields cols) = length cols \<and>
        (\<forall>c \<in> set cols. attachFields cols ! the (seqnoOf c) =
           Some \<lparr>attribute = getProp c ''name'', field_length = Undefined,
                 field_order = Undefined\<rparr>)"
      if "(\<forall>c \<in> set cols. seqnoOf c \<noteq> None) \<and> distinct (map seqnoOf cols) \<and>
           (the \<circ> seqnoOf) ` set cols = {..<length cols}"
      using attachFields_ordered [of cols] that by (simp add: fieldOf_def)
    with fields cols show ?thesis
      by (auto simp: it shaped_def)
  qed
  from run rows each show ?thesis by blast
qed

text \<open>
  Two indexes, the engine reporting the later one first and the columns of the
  two-column index out of order.
\<close>

theorem show_indexes_shaping_witness:
  "handleShowIndexesQuery index_query index_rows =
     (Inr [\<lparr>item_row = [(''seq'', Num 1), (''name'', Str ''users_tenant_email''), (''unique'', Num 1)],
            item_fields =
              [Some \<lparr>attribute = Str ''tenant'', field_length = Undefined, field_order = Undefined\<rparr>,
               Some \<lparr>attribute = Str ''email'', field_length = Undefined, field_order = Undefined\<rparr>],
            item_primary = False, item_unique = True,
            item_constraintName = Str ''users_tenant_email''\<rparr>,
           \<lparr>item_row = [(''seq'', Num 0), (''name'', Str ''users_age''), (''unique'', Num 0)],
            item_fields =
              [Some \<lparr>attribute = Str ''age'', field_length = Undefined, field_order = Undefined\<rparr>],
            item_primary = False, item_unique = False,
            item_constraintName = Str ''users_age''\<rparr>],
      [''PRAGMA INDEX_INFO(`users_tenant_email`)'', ''PRAGMA INDEX_INFO(`users_age`)''])"
proof -
  have h: "\<forall>item \<in> set index_rows. \<exists>cols. runNested index_query (indexInfoSql item) = Inr cols"
    by (simp add: index_rows_def index_query_def indexInfoSql_def getProp_def)
  from show_indexes_shaping [OF h] obtain items where
    run: "handleShowIndexesQuery index_query index_rows =
      (Inr items,
       map (\<lambda>item. ''PRAGMA INDEX_INFO(`'' @ js_toString (getProp item ''name'') @ ''`)'')
         (rev index_rows))"
    by blast
  have issued: "map (\<lambda>item. ''PRAGMA INDEX_INFO(`'' @ js_toString (getProp item ''name'') @ ''`)'')
         (rev index_rows) =
      [''PRAGMA INDEX_INFO(`users_tenant_email`)'', ''PRAGMA INDEX_INFO(`users_age`)'']"
    by (simp add: index_rows_def getProp_def)
  have "fst (handleShowIndexesQuery index_query index_rows) =
     Inr [\<lparr>item_row = [(''seq'', Num 1), (''name'', Str ''users_tenant_email''), (''unique'', Num 1)],
            item_fields =
              [Some \<lparr>attribute = Str ''tenant'', field_length = Undefined, field_order = Undefined\<rparr>,
               Some \<lparr>attribute = Str ''email'', field_length = Undefined, field_order = Undefined\<rparr>],
            item_primary = False, item_unique = True,
            item_constraintName = Str ''users_tenant_email''\<rparr>,
           \<lparr>item_row = [(''seq'', Num 0), (''name'', Str ''users_age''), (''unique'', Num 0)],
            item_fields =
              [Some \<lparr>attribute = Str ''age'', field_length = Undefined, field_order = Undefined\<rparr>],
            item_primary = False, item_unique = False,
            item_constraintName = Str ''users_age''\<rparr>]"
    by (simp add: handleShowIndexesQuery_def shapeIndex_def index_rows_def index_query_def
        indexInfoSql_def getProp_def attachFields_def seqnoOf_def fieldOf_def array_set_def)
  with run issued show ?thesis by simp
qed

section \<open>Properties of the statement runner\<close>

text \<open>
  Claim C9. In both modes, once \<open>prepare\<close> has given a statement, the calls made on the
  engine are the \<open>prepare\<close>, the one execution and then \<open>close\<close>, whatever the execution
  did: the statement is closed after a successful row collection, after a successful
  run, and when the execution raises an error. When \<open>close\<close> itself does not throw, the
  outcome is that of the execution.
\<close>

theorem statement_closed_on_every_path:
  assumes "prepare connection query = Inr stmt"
  shows
    "snd (allSeries connection query parameters) =
       [Prepare query, StmtAll (spreadArguments query parameters), StmtClose] \<and>
     snd (runSeries connection query parameters) =
       [Prepare query, StmtRun (spreadArguments query parameters), StmtClose] \<and>
     (stmt_close stmt = None \<longrightarrow>
        (\<forall>rows. stmt_all stmt (spreadArguments query parameters) = Inr rows \<longrightarrow>
           fst (allSeries connection query parameters) =
             Inr \<lparr>statement = \<lparr>lastID = 0, changes = 0\<rparr>, results = rows\<rparr>) \<and>
        (\<forall>e. stmt_all stmt (spreadArguments query parameters) = Inl e \<longrightarrow>
           fst (allSeries connection query parameters) = Inl e) \<and>
        (\<forall>result. stmt_run stmt (spreadArguments query parameters) = Inr result \<longrightarrow>
           fst (runSeries connection query parameters) =
             Inr \<lparr>statement = \<lparr>lastID = lastInsertRowid result, changes = run_changes result\<rparr>,
                  results = []\<rparr>) \<and>
        (\<forall>e. stmt_run stmt (spreadArguments query parameters) = Inl e \<longrightarrow>
           fst (runSeries connection query parameters) = Inl e))"
  using assms by (simp add: allSeries_def runSeries_def finally_close_def Let_def)

text \<open>A row collection that succeeds and a run that the engine rejects.\<close>

theorem statement_closed_on_every_path_witness:
  "allSeries example_connection ''SELECT id FROM users WHERE age > $1'' (Positional [Num 30]) =
     (Inr \<lparr>statement = \<lparr>lastID = 0, changes = 0\<rparr>,
           results = [[(''id'', Num 1)], [(''id'', Num 2)]]\<rparr>,
      [Prepare ''SELECT id FROM users WHERE age > $1'', StmtAll [Num 30], StmtClose]) \<and>
   runSeries example_connection ''DELETE FROM users WHERE age > $1'' (Positional [Num 30]) =
     (Inl \<lparr>code = Some ''SQLITE_BUSY'', message = ''database is locked'', err_sql = None\<rparr>,
      [Prepare ''DELETE FROM users WHERE age > $1'', StmtRun [Num 30], StmtClose])"
proof -
  let ?p = "Positional [Num 30]"
  have p: "prepare example_connection q = Inr example_statement" for q
    by (simp add: example_connection_def)
  have c: "stmt_close example_statement = None"
    and a: "stmt_all example_statement (spreadArguments q ?p) =
        Inr [[(''id'', Num 1)], [(''id'', Num 2)]]"
    and r: "stmt_run example_statement (spreadArguments q ?p) =
        Inl \<lparr>code = Some ''SQLITE_BUSY'', message = ''database is locked'', err_sql = None\<rparr>"
    for q
    by (simp_all add: example_statement_def)
  have s: "spreadArguments q ?p = [Num 30]" for q by simp
  note sel = statement_closed_on_every_path [OF p, of "''SELECT id FROM users WHERE age > $1''" ?p]
  note del = statement_closed_on_every_path [OF p, of "''DELETE FROM users WHERE age > $1''" ?p]
  have "allSeries example_connection ''SELECT id FROM users WHERE age > $1'' ?p =
     (Inr \<lparr>statement = \<lparr>lastID = 0, changes = 0\<rparr>,
           results = [[(''id'', Num 1)], [(''id'', Num 2)]]\<rparr>,
      [Prepare ''SELECT id FROM users WHERE age > $1'', StmtAll [Num 30], StmtClose])"
    using sel c a s by (simp add: prod_eq_iff)
  moreover have "runSeries example_connection ''DELETE FROM users WHERE age > $1'' ?p =
     (Inl \<lparr>code = Some ''SQLITE_BUSY'', message = ''database is locked'', err_sql = None\<rparr>,
      [Prepare ''DELETE FROM users WHERE age > $1'', StmtRun [Num 30], StmtClose])"
    using del c r s by (simp add: prod_eq_iff)
  ultimately show ?thesis by simp
qed

section \<open>Properties of the connection manager\<close>

text \<open>
  Claim C5. For every local connection attempt (no remote URL) whose storage is
  \<open>:memory:\<close> or the empty path: if the write pool's idle timeout is not infinite, or
  its use limit is not infinite, or its maximum size is not 1, or read replication is
  configured, then \<open>connect\<close> fails and makes no call on the engine or the file
  system; once the engine module is loaded the error is one of the four of the guard,
  and it is the one about more than one connection when only the maximum size is
  wrong.
\<close>

theorem temporary_storage_guard:
  assumes "\<not> present (url opts)"
    and "storage opts = Some '':memory:'' \<or> storage opts = Some []"
    and "idleTimeoutMillis (pool_write (sequelize_pool mgr)) \<noteq> \<infinity> \<or>
         maxUsesPerResource (pool_write (sequelize_pool mgr)) \<noteq> \<infinity> \<or>
         maxSize (pool_write (sequelize_pool mgr)) \<noteq> 1 \<or>
         pool_read (sequelize_pool mgr) \<noteq> None"
  shows "snd (connect mgr opts) = [] \<and>
    (\<exists>e. fst (connect mgr opts) = Inl e) \<and>
    (\<forall>lib. getLib mgr = Inr lib \<longrightarrow>
       fst (connect mgr opts) \<in>
         {Inl IdleConnectionsClosed, Inl ConnectionsClosedAfterUses, Inl MoreThanOneConnection,
          Inl ReadReplicationEnabled} \<and>
       (maxSize (pool_write (sequelize_pool mgr)) \<noteq> 1 \<and>
        idleTimeoutMillis (pool_write (sequelize_pool mgr)) = \<infinity> \<and>
        maxUsesPerResource (pool_write (sequelize_pool mgr)) = \<infinity> \<longrightarrow>
          fst (connect mgr opts) = Inl MoreThanOneConnection))"
proof -
  let ?w = "pool_write (sequelize_pool mgr)"
  define e where "e = the (temporaryStorageGuard (sequelize_pool mgr))"
  consider (idle) "idleTimeoutMillis ?w \<noteq> \<infinity>"
    | (uses) "idleTimeoutMillis ?w = \<infinity>" "maxUsesPerResource ?w \<noteq> \<infinity>"
    | (size) "idleTimeoutMillis ?w = \<infinity>" "maxUsesPerResource ?w = \<infinity>" "maxSize ?w \<noteq> 1"
    | (read) "idleTimeoutMillis ?w = \<infinity>" "maxUsesPerResource ?w = \<infinity>" "maxSize ?w = 1"
        "pool_read (sequelize_pool mgr) \<noteq> None"
    using assms(3) by blast
  then have "temporaryStorageGuard (sequelize_pool mgr) = Some e \<and>
      e \<in> {IdleConnectionsClosed, ConnectionsClosedAfterUses, MoreThanOneConnection,
          ReadReplicationEnabled} \<and>
      (maxSize ?w \<noteq> 1 \<and> idleTimeoutMillis ?w = \<infinity> \<and> maxUsesPerResource ?w = \<infinity> \<longrightarrow>
         e = MoreThanOneConnection)"
    unfolding e_def temporaryStorageGuard_def Let_def
    by cases (simp_all del: not_infinity_eq)
  then have g: "temporaryStorageGuard (sequelize_pool mgr) = Some e"
    and e: "e \<in> {IdleConnectionsClosed, ConnectionsClosedAfterUses, MoreThanOneConnection,
          ReadReplicationEnabled}"
    and size: "maxSize ?w \<noteq> 1 \<and> idleTimeoutMillis ?w = \<infinity> \<and> maxUsesPerResource ?w = \<infinity> \<longrightarrow>
         e = MoreThanOneConnection"
    by blast+
  have local: "connectLocal mgr lib opts = (Inl e, [])" for lib
    using assms(2) g by (auto simp: connectLocal_def isTemporaryStorage_def Let_def)
  show ?thesis
  proof (cases "getLib mgr")
    case (Inl err)
    then show ?thesis by (simp add: connect_def)
  next
    case (Inr lib)
    then have "connect mgr opts = (Inl e, [])"
      using assms(1) local by (simp add: connect_def)
    with Inr e size show ?thesis by auto
  qed
qed

text \<open>The scenario of the claim: a pool of at most five connections against \<open>:memory:\<close>.\<close>

theorem temporary_storage_guard_witness:
  "connect memory_manager memory_options = (Inl MoreThanOneConnection, [])"
proof -
  have h: "\<not> present (url memory_options)"
    "storage memory_options = Some '':memory:'' \<or> storage memory_options = Some []"
    "idleTimeoutMillis (pool_write (sequelize_pool memory_manager)) \<noteq> \<infinity> \<or>
         maxUsesPerResource (pool_write (sequelize_pool memory_manager)) \<noteq> \<infinity> \<or>
         maxSize (pool_write (sequelize_pool memory_manager)) \<noteq> 1 \<or>
         pool_read (sequelize_pool memory_manager) \<noteq> None"
    by (simp_all add: memory_options_def memory_manager_def present_def)
  have l: "getLib memory_manager = Inr example_module"
    and p: "maxSize (pool_write (sequelize_pool memory_manager)) \<noteq> 1"
      "idleTimeoutMillis (pool_write (sequelize_pool memory_manager)) = \<infinity>"
      "maxUsesPerResource (pool_write (sequelize_pool memory_manager)) = \<infinity>"
    by (simp_all add: memory_manager_def)
  from temporary_storage_guard [OF h] l p
  have "snd (connect memory_manager memory_options) = []"
    "fst (connect memory_manager memory_options) = Inl MoreThanOneConnection"
    by blast+
  then show ?thesis by (simp add: prod_eq_iff)
qed

text \<open>
  Claim C10. Disconnecting a connection whose closed-flag is set returns without calling
  the engine's \<open>close\<close> and leaves the connection as it is. Disconnecting an open
  connection whose \<open>close\<close> succeeds calls \<open>close\<close> once and sets the flag, so that
  \<open>validate\<close> is false and a second disconnect does nothing. When \<open>close\<close> throws, the
  error is passed on, the flag stays unset and \<open>validate\<close> stays true.
\<close>

theorem disconnect_idempotent:
  "(closed c = Some True \<longrightarrow> disconnect c = (Inr (), c, [])) \<and>
   (closed c \<noteq> Some True \<and> close c = None \<longrightarrow>
      disconnect c = (Inr (), c\<lparr>closed := Some True\<rparr>, [Close]) \<and>
      \<not> validate (c\<lparr>closed := Some True\<rparr>) \<and>
      disconnect (c\<lparr>closed := Some True\<rparr>) = (Inr (), c\<lparr>closed := Some True\<rparr>, [])) \<and>
   (\<forall>err. closed c \<noteq> Some True \<and> close c = Some err \<longrightarrow>
      disconnect c = (Inl err, c, [Close]) \<and> validate c)"
  by (simp add: disconnect_def validate_def)

text \<open>An open connection that closes, the same one closed again, and one whose close fails.\<close>

theorem disconnect_idempotent_witness:
  "disconnect example_connection = (Inr (), example_connection\<lparr>closed := Some True\<rparr>, [Close]) \<and>
   validate example_connection \<and>
   \<not> validate (example_connection\<lparr>closed := Some True\<rparr>) \<and>
   disconnect (example_connection\<lparr>closed := Some True\<rparr>) =
     (Inr (), example_connection\<lparr>closed := Some True\<rparr>, []) \<and>
   disconnect (example_connection\<lparr>close := Some \<lparr>code = None, message = ''io'', err_sql = None\<rparr>\<rparr>) =
     (Inl \<lparr>code = None, message = ''io'', err_sql = None\<rparr>,
      example_connection\<lparr>close := Some \<lparr>code = None, message = ''io'', err_sql = None\<rparr>\<rparr>,
      [Close])"
proof -
  let ?bad = "example_connection\<lparr>close := Some \<lparr>code = None, message = ''io'', err_sql = None\<rparr>\<rparr>"
  have h: "closed example_connection \<noteq> Some True" "close example_connection = None"
    "closed ?bad \<noteq> Some True"
    "close ?bad = Some \<lparr>code = None, message = ''io'', err_sql = None\<rparr>"
    by (simp_all add: example_connection_def)
  have "validate example_connection"
    by (simp add: validate_def example_connection_def)
  with disconnect_idempotent [of example_connection] disconnect_idempotent [of ?bad] h
  show ?thesis by simp
qed

end
